theory Spec2Isabelle
  imports Main "HOL-Library.Char_ord" "HOL-Library.List_Lexorder" "HOL-Library.Product_Lexorder"
    "HOL-Library.Multiset"
begin

section \<open>Python values, errors and builtins used by loc\_maps.py\<close>

text \<open>
  The naming functions of \<^verbatim>\<open>autofile/schema/loc_maps.py\<close> are dynamically typed and
  validate their arguments with \<^verbatim>\<open>assert\<close>. An argument that may be of any type is a
  \<open>pyval\<close>; a raised exception is the \<open>Inl\<close> branch of the result.
\<close>

datatype py_error = AssertionError | IndexError | ValueError | TypeError

text \<open>
  A float is a sign, a mantissa and a binary exponent, standing for
  \<open>(-1)^s * m * 2^e\<close>, or an infinity, or not-a-number. Every IEEE double is of this
  form (negative zero is \<open>Finite True 0 e\<close>).
\<close>

datatype pyfloat = Finite bool nat int | Infinity bool | NaN

datatype pyval = PyInt int | PyBool bool | PyFloat pyfloat | PyStr string | PyNone

text \<open>
  \<^verbatim>\<open>isinstance(v, numbers.Integral)\<close> holds for \<^verbatim>\<open>int\<close> and for its subclass
  \<^verbatim>\<open>bool\<close>; \<open>as_integral\<close> gives the integer value of such a \<open>v\<close> and \<open>None\<close> for
  every other value.
\<close>

fun as_integral :: "pyval \<Rightarrow> int option" where
  "as_integral (PyInt n) = Some n"
| "as_integral (PyBool b) = Some (if b then 1 else 0)"
| "as_integral (PyFloat f) = None"
| "as_integral (PyStr s) = None"
| "as_integral PyNone = None"

definition digit_char :: "nat \<Rightarrow> char" where
  "digit_char d = char_of (48 + d)"

definition is_digit :: "char \<Rightarrow> bool" where
  "is_digit c = (48 \<le> (of_char c :: nat) \<and> (of_char c :: nat) \<le> 57)"

definition digit_val :: "char \<Rightarrow> nat" where
  "digit_val c = of_char c - 48"

text \<open>The decimal digits of a natural number, most significant first.\<close>

fun dec_nat :: "nat \<Rightarrow> string" where
  "dec_nat n = (if n < 10 then [digit_char n] else dec_nat (n div 10) @ [digit_char (n mod 10)])"

declare dec_nat.simps [simp del]

text \<open>\<^verbatim>\<open>str(n)\<close> for an \<^verbatim>\<open>int\<close>.\<close>

definition str_int :: "int \<Rightarrow> string" where
  "str_int i = (if i < 0 then CHR ''-'' # dec_nat (nat (- i)) else dec_nat (nat i))"

text \<open>
  \<^verbatim>\<open>str(v)\<close> for an integral value: a \<^verbatim>\<open>bool\<close> prints as its name. The functions
  below call it after the \<^verbatim>\<open>isinstance\<close> assertions only, so the last equation is
  never reached.
\<close>

fun str_integral :: "pyval \<Rightarrow> string" where
  "str_integral (PyBool b) = (if b then ''True'' else ''False'')"
| "str_integral (PyInt n) = str_int n"
| "str_integral v = []"

text \<open>
  \<^verbatim>\<open>format(i, '02d')\<close>: the sign comes first and zeros fill up to the width between
  the sign and the digits.
\<close>

definition fmt_02d :: "int \<Rightarrow> string" where
  "fmt_02d i =
     (let ds = dec_nat (nat \<bar>i\<bar>) in
      if i < 0 then CHR ''-'' # replicate (1 - length ds) CHR ''0'' @ ds
      else replicate (2 - length ds) CHR ''0'' @ ds)"

text \<open>
  \<^verbatim>\<open>format(i, '0>2d')\<close>: the number is printed as by \<^verbatim>\<open>str\<close> and the fill
  character \<^verbatim>\<open>0\<close> is put to its left up to the width.
\<close>

definition fmt_0r2d :: "int \<Rightarrow> string" where
  "fmt_0r2d i = (let s = str_int i in replicate (2 - length s) CHR ''0'' @ s)"

text \<open>
  \<^verbatim>\<open>int(s)\<close> for an ASCII string, in base ten: white space around the number is
  dropped, one sign may lead, and single underscores may stand between digits. Anything
  else is a \<^verbatim>\<open>ValueError\<close>.
\<close>

definition is_space :: "char \<Rightarrow> bool" where
  "is_space c = ((of_char c :: nat) \<in> {9, 10, 11, 12, 13, 28, 29, 30, 31, 32})"

fun digits_val :: "nat \<Rightarrow> string \<Rightarrow> nat option" where
  "digits_val acc [] = None"
| "digits_val acc [c] = (if is_digit c then Some (10 * acc + digit_val c) else None)"
| "digits_val acc (c # d # cs) =
     (if \<not> is_digit c then None
      else if d = CHR ''_'' then digits_val (10 * acc + digit_val c) cs
      else digits_val (10 * acc + digit_val c) (d # cs))"

definition py_int :: "string \<Rightarrow> py_error + int" where
  "py_int s =
     (let t = rev (dropWhile is_space (rev (dropWhile is_space s))) in
      case t of
        [] \<Rightarrow> Inl ValueError
      | c # cs \<Rightarrow>
          if c = CHR ''-'' then
            (case digits_val 0 cs of None \<Rightarrow> Inl ValueError | Some n \<Rightarrow> Inr (- int n))
          else if c = CHR ''+'' then
            (case digits_val 0 cs of None \<Rightarrow> Inl ValueError | Some n \<Rightarrow> Inr (int n))
          else
            (case digits_val 0 t of None \<Rightarrow> Inl ValueError | Some n \<Rightarrow> Inr (int n)))"

text \<open>
  \<^verbatim>\<open>xs[i]\<close>: a negative index counts from the end, an index outside the sequence
  raises \<^verbatim>\<open>IndexError\<close>.
\<close>

definition py_index :: "'a list \<Rightarrow> int \<Rightarrow> py_error + 'a" where
  "py_index xs i =
     (if 0 \<le> i \<and> i < int (length xs) then Inr (xs ! nat i)
      else if i < 0 \<and> - int (length xs) \<le> i then Inr (xs ! nat (int (length xs) + i))
      else Inl IndexError)"

text \<open>ASCII letters and digits.\<close>

definition is_alnum :: "char \<Rightarrow> bool" where
  "is_alnum c =
     (let k = (of_char c :: nat) in
      (48 \<le> k \<and> k \<le> 57) \<or> (65 \<le> k \<and> k \<le> 90) \<or> (97 \<le> k \<and> k \<le> 122))"

definition ascii_uppercase :: string where
  "ascii_uppercase = ''ABCDEFGHIJKLMNOPQRSTUVWXYZ''"


section \<open>Numeric leaves\<close>

text \<open>
  \<^verbatim>\<open>
  def transition_state_leaf(num):
      assert isinstance(num, numbers.Integral) and 0 <= num <= 99, (...)
      return f'{int(num):02d}'
  \<close>
  \<^verbatim>\<open>zmatrix_leaf\<close> and \<^verbatim>\<open>vrctst_leaf\<close> have the same body.
\<close>

definition transition_state_leaf :: "pyval \<Rightarrow> py_error + string" where
  "transition_state_leaf num =
     (case as_integral num of
        None \<Rightarrow> Inl AssertionError
      | Some n \<Rightarrow> if 0 \<le> n \<and> n \<le> 99 then Inr (fmt_02d n) else Inl AssertionError)"

definition zmatrix_leaf :: "pyval \<Rightarrow> py_error + string" where
  "zmatrix_leaf num =
     (case as_integral num of
        None \<Rightarrow> Inl AssertionError
      | Some n \<Rightarrow> if 0 \<le> n \<and> n \<le> 99 then Inr (fmt_02d n) else Inl AssertionError)"

definition vrctst_leaf :: "pyval \<Rightarrow> py_error + string" where
  "vrctst_leaf num =
     (case as_integral num of
        None \<Rightarrow> Inl AssertionError
      | Some n \<Rightarrow> if 0 \<le> n \<and> n \<le> 99 then Inr (fmt_02d n) else Inl AssertionError)"


section \<open>Run and build naming\<close>

text \<open>
  \<^verbatim>\<open>
  def subrun_leaf(macro_idx, micro_idx):
      assert isinstance(macro_idx, numbers.Integral)
      assert isinstance(micro_idx, numbers.Integral)
      assert macro_idx < 26  # for now -- if needed we can add AA, AB, etc.
      macro_str = string.ascii_uppercase[macro_idx]
      micro_str = f'{micro_idx:0>2d}'
      return ''.join([macro_str, micro_str])
  \<close>
\<close>

definition subrun_leaf :: "pyval \<Rightarrow> pyval \<Rightarrow> py_error + string" where
  "subrun_leaf macro_idx micro_idx =
     (case as_integral macro_idx of
        None \<Rightarrow> Inl AssertionError
      | Some ma \<Rightarrow>
          (case as_integral micro_idx of
             None \<Rightarrow> Inl AssertionError
           | Some mi \<Rightarrow>
               if \<not> ma < 26 then Inl AssertionError
               else
                 (case py_index ascii_uppercase ma of
                    Inl e \<Rightarrow> Inl e
                  | Inr macro_str \<Rightarrow> Inr (macro_str # fmt_0r2d mi))))"

text \<open>
  \<^verbatim>\<open>
  def get_next_build_number(num):
      return int(num % 10)
  \<close>
  on an \<^verbatim>\<open>int\<close>. Python's \<^verbatim>\<open>%\<close> takes the sign of the divisor, as \<open>mod\<close> on \<open>int\<close> does.
\<close>

definition get_next_build_number :: "int \<Rightarrow> int" where
  "get_next_build_number num = num mod 10"


section \<open>Identifier validation\<close>

text \<open>
  \<^verbatim>\<open>
  def conformer_branch(rid):
      assert rid[0] == 'r', (...)
      assert _is_random_string_identifier(rid[1:])
      return rid
  \<close>
  The predicate \<^verbatim>\<open>_is_random_string_identifier\<close> comes from \<^verbatim>\<open>autofile.schema._util\<close>
  and is a parameter here. \<^verbatim>\<open>conformer_leaf\<close> and \<^verbatim>\<open>tau_leaf\<close> differ in the tag only.
\<close>

definition conformer_branch :: "(string \<Rightarrow> bool) \<Rightarrow> string \<Rightarrow> py_error + string" where
  "conformer_branch is_random_string_identifier rid =
     (case py_index rid 0 of
        Inl e \<Rightarrow> Inl e
      | Inr c \<Rightarrow>
          if c \<noteq> CHR ''r'' then Inl AssertionError
          else if \<not> is_random_string_identifier (drop 1 rid) then Inl AssertionError
          else Inr rid)"

definition conformer_leaf :: "(string \<Rightarrow> bool) \<Rightarrow> string \<Rightarrow> py_error + string" where
  "conformer_leaf is_random_string_identifier cid =
     (case py_index cid 0 of
        Inl e \<Rightarrow> Inl e
      | Inr c \<Rightarrow>
          if c \<noteq> CHR ''c'' then Inl AssertionError
          else if \<not> is_random_string_identifier (drop 1 cid) then Inl AssertionError
          else Inr cid)"

definition tau_leaf :: "(string \<Rightarrow> bool) \<Rightarrow> string \<Rightarrow> py_error + string" where
  "tau_leaf is_random_string_identifier tid =
     (case py_index tid 0 of
        Inl e \<Rightarrow> Inl e
      | Inr c \<Rightarrow>
          if c \<noteq> CHR ''t'' then Inl AssertionError
          else if \<not> is_random_string_identifier (drop 1 tid) then Inl AssertionError
          else Inr tid)"


section \<open>Trunk names\<close>

text \<open>Each trunk function takes no argument and returns a fixed name.\<close>

definition species_trunk :: string where "species_trunk = ''SPC''"
definition reaction_trunk :: string where "reaction_trunk = ''RXN''"
definition transition_state_trunk :: string where "transition_state_trunk = ''TS''"
definition conformer_trunk :: string where "conformer_trunk = ''CONFS''"
definition single_point_trunk :: string where "single_point_trunk = ''SP''"
definition high_spin_trunk :: string where "high_spin_trunk = ''HS''"
definition symmetry_trunk :: string where "symmetry_trunk = ''SYM''"
definition zmatrix_trunk :: string where "zmatrix_trunk = ''Z''"
definition scan_trunk :: string where "scan_trunk = ''SCANS''"
definition cscan_trunk :: string where "cscan_trunk = ''CSCANS''"
definition tau_trunk :: string where "tau_trunk = ''TAU''"
definition energy_transfer_trunk :: string where "energy_transfer_trunk = ''ETRANS''"
definition vrctst_trunk :: string where "vrctst_trunk = ''VRC''"
definition run_trunk :: string where "run_trunk = ''RUN''"

definition trunk_names :: "string list" where
  "trunk_names =
     [species_trunk, reaction_trunk, transition_state_trunk, conformer_trunk,
      single_point_trunk, high_spin_trunk, symmetry_trunk, zmatrix_trunk, scan_trunk,
      cscan_trunk, tau_trunk, energy_transfer_trunk, vrctst_trunk, run_trunk]"


section \<open>Scan leaves\<close>

text \<open>\<^verbatim>\<open>sep.join(parts)\<close>.\<close>

fun str_join :: "string \<Rightarrow> string list \<Rightarrow> string" where
  "str_join sep [] = []"
| "str_join sep [x] = x"
| "str_join sep (x # y # ys) = x @ sep @ str_join sep (y # ys)"

text \<open>
  \<open>hundredths m e\<close> is the integer nearest to \<open>m * 2^e * 100\<close>, a tie going to the even
  one: the correctly rounded conversion that \<^verbatim>\<open>format(val, '.2f')\<close> performs on the
  exact binary value.
\<close>

definition hundredths :: "nat \<Rightarrow> int \<Rightarrow> nat" where
  "hundredths m e =
     (if 0 \<le> e then m * 100 * 2 ^ nat e
      else
        (let d = 2 ^ nat (- e); q = (m * 100) div d; r = (m * 100) mod d in
         if 2 * r < d then q
         else if d < 2 * r then q + 1
         else if even q then q else q + 1))"

text \<open>
  \<^verbatim>\<open>f'{val:.2f}'\<close> for a float: the sign (also of a negative zero and of a negative
  value that rounds to zero), the integer part, a decimal point and two decimals; the
  infinities and not-a-number print as words.
\<close>

fun fmt_2f :: "pyfloat \<Rightarrow> string" where
  "fmt_2f NaN = ''nan''"
| "fmt_2f (Infinity s) = (if s then ''-inf'' else ''inf'')"
| "fmt_2f (Finite s m e) =
     (let h = hundredths m e in
      (if s then ''-'' else []) @ dec_nat (h div 100) @ ''.''
        @ [digit_char (h mod 100 div 10), digit_char (h mod 10)])"

text \<open>
  \<^verbatim>\<open>
  def scan_leaf(coo_vals):
      return '_'.join((f'{val:.2f}' for val in coo_vals))
  \<close>
  \<^verbatim>\<open>cscan_leaf\<close> has the same body.
\<close>

definition scan_leaf :: "pyfloat list \<Rightarrow> string" where
  "scan_leaf coo_vals = str_join ''_'' (map fmt_2f coo_vals)"

definition cscan_leaf :: "pyfloat list \<Rightarrow> string" where
  "cscan_leaf coo_vals = str_join ''_'' (map fmt_2f coo_vals)"

text \<open>
  The characters the specification calls filesystem-safe: letters, digits, underscore,
  hyphen and the at sign.
\<close>

definition fs_safe :: "char \<Rightarrow> bool" where
  "fs_safe c = (is_alnum c \<or> c = CHR ''_'' \<or> c = CHR ''-'' \<or> c = CHR ''@'')"


section \<open>The chemistry collaborators\<close>

text \<open>
  The chemical-identifier functions of \<^verbatim>\<open>automol\<close> and the multiplicity check of
  \<^verbatim>\<open>autofile.schema._util\<close> are not part of this file's source. They are fields of a
  record that every function using them takes as its first argument. The multiplicity
  check belongs to the same package as the safe-mode flag and may read it: a value of the
  record gives the collaborators as they behave under one setting of the flag.
\<close>

record chem =
  chi_argsort :: "string list \<Rightarrow> nat list"
  chi_sorted :: "string list \<Rightarrow> string list"
  chi_is_standard_form :: "string \<Rightarrow> bool"
  chi_is_complete :: "string \<Rightarrow> bool"
  chi_join :: "string list \<Rightarrow> string"
  chi_standard_form :: "string \<Rightarrow> string"
  chi_inchi_key :: "string \<Rightarrow> string"
  chi_formula_layer :: "string \<Rightarrow> string"
  key_first_hash :: "string \<Rightarrow> string"
  key_second_hash_with_extension :: "string \<Rightarrow> string"
  is_valid_inchi_multiplicity :: "string \<Rightarrow> int \<Rightarrow> int \<Rightarrow> bool"

text \<open>
  \<^verbatim>\<open>os.path.join(a, *p)\<close> on POSIX: a part that starts with the separator replaces what
  came before it; otherwise it is appended, after a separator unless the path so far is
  empty or ends with one.
\<close>

definition path_join2 :: "string \<Rightarrow> string \<Rightarrow> string" where
  "path_join2 path b =
     (if b \<noteq> [] \<and> hd b = CHR ''/'' then b
      else if path = [] \<or> last path = CHR ''/'' then path @ b
      else path @ ''/'' @ b)"

definition os_path_join :: "string \<Rightarrow> string list \<Rightarrow> string" where
  "os_path_join a p = foldl path_join2 a p"


section \<open>Species leaves\<close>

text \<open>
  \<^verbatim>\<open>
  def species_leaf(ich, chg, mul):
      if safemode_is_on():
          assert automol.chi.is_standard_form(ich)
          assert automol.chi.is_complete(ich)
      assert isinstance(chg, numbers.Integral)
      assert isinstance(mul, numbers.Integral), (...)
      assert _is_valid_inchi_multiplicity(ich, mul, chg), (...)
      ick = automol.chi.inchi_key(ich)
      chg_str = str(chg)
      mul_str = str(mul)
      dir_names = (automol.chi.formula_layer(ich),
                   automol.inchi_key.first_hash(ick),
                   chg_str,
                   mul_str,
                   automol.inchi_key.second_hash_with_extension(ick))
      return os.path.join(*dir_names)
  \<close>
  The process-wide flag read by \<^verbatim>\<open>safemode_is_on()\<close> is the argument \<open>safemode\<close>.
\<close>

definition species_leaf :: "chem \<Rightarrow> bool \<Rightarrow> string \<Rightarrow> pyval \<Rightarrow> pyval \<Rightarrow> py_error + string" where
  "species_leaf L safemode ich chg mul =
     (if safemode \<and> \<not> chi_is_standard_form L ich then Inl AssertionError
      else if safemode \<and> \<not> chi_is_complete L ich then Inl AssertionError
      else
        (case as_integral chg of
           None \<Rightarrow> Inl AssertionError
         | Some c \<Rightarrow>
             (case as_integral mul of
                None \<Rightarrow> Inl AssertionError
              | Some m \<Rightarrow>
                  if \<not> is_valid_inchi_multiplicity L ich m c then Inl AssertionError
                  else
                    (let ick = chi_inchi_key L ich;
                         chg_str = str_integral chg;
                         mul_str = str_integral mul
                     in Inr (os_path_join (chi_formula_layer L ich)
                               [key_first_hash L ick, chg_str, mul_str,
                                key_second_hash_with_extension L ick])))))"


section \<open>Reaction canonicalisation\<close>

text \<open>
  \<^verbatim>\<open>tuple(xs[idx] for idx in idxs)\<close> for indices that are not negative: an index past
  the end raises \<^verbatim>\<open>IndexError\<close>.
\<close>

fun pick :: "'a list \<Rightarrow> nat list \<Rightarrow> py_error + 'a list" where
  "pick xs [] = Inr []"
| "pick xs (idx # idxs) =
     (if length xs \<le> idx then Inl IndexError
      else (case pick xs idxs of Inl e \<Rightarrow> Inl e | Inr ys \<Rightarrow> Inr (xs ! idx # ys)))"

text \<open>
  \<^verbatim>\<open>
  def _sort_together(ichs, chgs, muls):
      idxs = automol.chi.argsort(ichs)
      ichs = tuple(ichs[idx] for idx in idxs)
      chgs = tuple(chgs[idx] for idx in idxs)
      muls = tuple(muls[idx] for idx in idxs)
      return (ichs, chgs, muls)

  def _sortable_representation(ichs, chgs, muls):
      idxs = automol.chi.argsort(ichs)
      ichs = tuple(ichs[idx] for idx in idxs)
      return (len(ichs), ichs, chgs, muls)
  \<close>
  The two private helpers carry the prefix \<open>priv_\<close> in place of the leading underscore.
  Tuples and lists are both lists here. Charges and multiplicities are integers.
\<close>

definition priv_sort_together ::
  "(string list \<Rightarrow> nat list) \<Rightarrow> string list \<Rightarrow> int list \<Rightarrow> int list
     \<Rightarrow> py_error + (string list \<times> int list \<times> int list)" where
  "priv_sort_together srt ichs chgs muls =
     (let idxs = srt ichs in
      case pick ichs idxs of
        Inl e \<Rightarrow> Inl e
      | Inr ichs' \<Rightarrow>
          (case pick chgs idxs of
             Inl e \<Rightarrow> Inl e
           | Inr chgs' \<Rightarrow>
               (case pick muls idxs of
                  Inl e \<Rightarrow> Inl e
                | Inr muls' \<Rightarrow> Inr (ichs', chgs', muls'))))"

definition priv_sortable_representation ::
  "(string list \<Rightarrow> nat list) \<Rightarrow> string list \<Rightarrow> int list \<Rightarrow> int list
     \<Rightarrow> py_error + (nat \<times> string list \<times> int list \<times> int list)" where
  "priv_sortable_representation srt ichs chgs muls =
     (let idxs = srt ichs in
      case pick ichs idxs of
        Inl e \<Rightarrow> Inl e
      | Inr ichs' \<Rightarrow> Inr (length ichs', ichs', chgs, muls))"

text \<open>
  \<^verbatim>\<open>
  def reaction_is_reversed(rxn_ichs, rxn_chgs, rxn_muls):
      assert len(rxn_ichs) == len(rxn_chgs) == len(rxn_muls) == 2
      ichs1, ichs2 = rxn_ichs
      chgs1, chgs2 = rxn_chgs
      muls1, muls2 = rxn_muls
      ichs1, chgs1, muls1 = _sort_together(ichs1, chgs1, muls1)
      ichs2, chgs2, muls2 = _sort_together(ichs2, chgs2, muls2)
      return (_sortable_representation(ichs1, chgs1, muls1) >
              _sortable_representation(ichs2, chgs2, muls2))
  \<close>
  Python compares tuples, and strings, lexicographically: so does \<open><\<close> on products,
  lists and characters here.
\<close>

definition reaction_is_reversed ::
  "(string list \<Rightarrow> nat list) \<Rightarrow> string list list \<Rightarrow> int list list \<Rightarrow> int list list
     \<Rightarrow> py_error + bool" where
  "reaction_is_reversed srt rxn_ichs rxn_chgs rxn_muls =
     (if \<not> (length rxn_ichs = length rxn_chgs \<and> length rxn_chgs = length rxn_muls
             \<and> length rxn_muls = 2)
      then Inl AssertionError
      else
        (case priv_sort_together srt (rxn_ichs ! 0) (rxn_chgs ! 0) (rxn_muls ! 0) of
           Inl e \<Rightarrow> Inl e
         | Inr (ichs1, chgs1, muls1) \<Rightarrow>
             (case priv_sort_together srt (rxn_ichs ! 1) (rxn_chgs ! 1) (rxn_muls ! 1) of
                Inl e \<Rightarrow> Inl e
              | Inr (ichs2, chgs2, muls2) \<Rightarrow>
                  (case priv_sortable_representation srt ichs1 chgs1 muls1 of
                     Inl e \<Rightarrow> Inl e
                   | Inr rep1 \<Rightarrow>
                       (case priv_sortable_representation srt ichs2 chgs2 muls2 of
                          Inl e \<Rightarrow> Inl e
                        | Inr rep2 \<Rightarrow> Inr (rep2 < rep1))))))"

text \<open>
  \<^verbatim>\<open>
  def sort_together(rxn_ichs, rxn_chgs, rxn_muls):
      assert len(rxn_ichs) == len(rxn_chgs) == len(rxn_muls) == 2
      ichs1, ichs2 = rxn_ichs
      chgs1, chgs2 = rxn_chgs
      muls1, muls2 = rxn_muls
      ichs1, chgs1, muls1 = _sort_together(ichs1, chgs1, muls1)
      ichs2, chgs2, muls2 = _sort_together(ichs2, chgs2, muls2)
      if reaction_is_reversed(rxn_ichs, rxn_chgs, rxn_muls):
          ichs1, ichs2 = ichs2, ichs1
          chgs1, chgs2 = chgs2, chgs1
          muls1, muls2 = muls2, muls1
      return ((ichs1, ichs2), (chgs1, chgs2), (muls1, muls2))
  \<close>
\<close>

definition sort_together ::
  "(string list \<Rightarrow> nat list) \<Rightarrow> string list list \<Rightarrow> int list list \<Rightarrow> int list list
     \<Rightarrow> py_error + (string list list \<times> int list list \<times> int list list)" where
  "sort_together srt rxn_ichs rxn_chgs rxn_muls =
     (if \<not> (length rxn_ichs = length rxn_chgs \<and> length rxn_chgs = length rxn_muls
             \<and> length rxn_muls = 2)
      then Inl AssertionError
      else
        (case priv_sort_together srt (rxn_ichs ! 0) (rxn_chgs ! 0) (rxn_muls ! 0) of
           Inl e \<Rightarrow> Inl e
         | Inr (ichs1, chgs1, muls1) \<Rightarrow>
             (case priv_sort_together srt (rxn_ichs ! 1) (rxn_chgs ! 1) (rxn_muls ! 1) of
                Inl e \<Rightarrow> Inl e
              | Inr (ichs2, chgs2, muls2) \<Rightarrow>
                  (case reaction_is_reversed srt rxn_ichs rxn_chgs rxn_muls of
                     Inl e \<Rightarrow> Inl e
                   | Inr reversed \<Rightarrow>
                       if reversed
                       then Inr ([ichs2, ichs1], [chgs2, chgs1], [muls2, muls1])
                       else Inr ([ichs1, ichs2], [chgs1, chgs2], [muls1, muls2])))))"


section \<open>Reaction leaves\<close>

text \<open>
  \<^verbatim>\<open>
  def _reactant_leaf(ichs, chgs, muls):
      if safemode_is_on():
          for ich in ichs:
              assert automol.chi.is_standard_form(ich), (...)
              assert automol.chi.is_complete(ich), (...)
          assert tuple(ichs) == automol.chi.sorted_(ichs)
      assert len(ichs) == len(chgs) == len(muls)
      assert all(isinstance(chg, numbers.Integral) for chg in chgs)
      assert all(isinstance(mul, numbers.Integral) for mul in muls)
      assert all(_is_valid_inchi_multiplicity(ich, mul)
                 for ich, mul in zip(ichs, muls))
      ich = automol.chi.standard_form(automol.chi.join(ichs))
      ick = automol.chi.inchi_key(ich)
      chg_str = '_'.join(map(str, chgs))
      mul_str = '_'.join(map(str, muls))
      dir_names = (automol.chi.formula_layer(ich),
                   automol.inchi_key.first_hash(ick),
                   chg_str,
                   mul_str,
                   automol.inchi_key.second_hash_with_extension(ick))
      return os.path.join(*dir_names)
  \<close>
  The two \<^verbatim>\<open>isinstance\<close> assertions hold by the type of \<open>chgs\<close> and \<open>muls\<close>. The
  multiplicity check is called without a charge, which then is its default 0.
\<close>

definition priv_reactant_leaf ::
  "chem \<Rightarrow> bool \<Rightarrow> string list \<Rightarrow> int list \<Rightarrow> int list \<Rightarrow> py_error + string" where
  "priv_reactant_leaf L safemode ichs chgs muls =
     (if safemode
         \<and> \<not> list_all (\<lambda>ich. chi_is_standard_form L ich \<and> chi_is_complete L ich) ichs
      then Inl AssertionError
      else if safemode \<and> ichs \<noteq> chi_sorted L ichs then Inl AssertionError
      else if \<not> (length ichs = length chgs \<and> length chgs = length muls)
      then Inl AssertionError
      else if \<not> list_all (\<lambda>(ich, mul). is_valid_inchi_multiplicity L ich mul 0) (zip ichs muls)
      then Inl AssertionError
      else
        (let ich = chi_standard_form L (chi_join L ichs);
             ick = chi_inchi_key L ich;
             chg_str = str_join ''_'' (map str_int chgs);
             mul_str = str_join ''_'' (map str_int muls)
         in Inr (os_path_join (chi_formula_layer L ich)
                   [key_first_hash L ick, chg_str, mul_str,
                    key_second_hash_with_extension L ick])))"

text \<open>
  \<^verbatim>\<open>
  def reaction_leaf(rxn_ichs, rxn_chgs, rxn_muls, ts_mul):
      rxn_ichs = tuple(map(tuple, rxn_ichs))
      rxn_chgs = tuple(map(tuple, rxn_chgs))
      rxn_muls = tuple(map(tuple, rxn_muls))
      if safemode_is_on():
          assert ((rxn_ichs, rxn_chgs, rxn_muls) ==
                  sort_together(rxn_ichs, rxn_chgs, rxn_muls))
      ichs1, ichs2 = rxn_ichs
      chgs1, chgs2 = rxn_chgs
      muls1, muls2 = rxn_muls
      return os.path.join(_reactant_leaf(ichs1, chgs1, muls1),
                          _reactant_leaf(ichs2, chgs2, muls2),
                          str(ts_mul))
  \<close>
  Unpacking a sequence that has not two elements raises \<^verbatim>\<open>ValueError\<close>.
\<close>

definition reaction_leaf ::
  "chem \<Rightarrow> bool \<Rightarrow> string list list \<Rightarrow> int list list \<Rightarrow> int list list \<Rightarrow> int
     \<Rightarrow> py_error + string" where
  "reaction_leaf L safemode rxn_ichs rxn_chgs rxn_muls ts_mul =
     (case (if safemode
            then (case sort_together (chi_argsort L) rxn_ichs rxn_chgs rxn_muls of
                    Inl e \<Rightarrow> Inl e
                  | Inr canon \<Rightarrow>
                      if (rxn_ichs, rxn_chgs, rxn_muls) = canon then Inr ()
                      else Inl AssertionError)
            else Inr ()) of
        Inl e \<Rightarrow> Inl e
      | Inr u \<Rightarrow>
          if length rxn_ichs \<noteq> 2 \<or> length rxn_chgs \<noteq> 2 \<or> length rxn_muls \<noteq> 2
          then Inl ValueError
          else
            (case priv_reactant_leaf L safemode (rxn_ichs ! 0) (rxn_chgs ! 0) (rxn_muls ! 0) of
               Inl e \<Rightarrow> Inl e
             | Inr leaf1 \<Rightarrow>
                 (case priv_reactant_leaf L safemode (rxn_ichs ! 1) (rxn_chgs ! 1)
                         (rxn_muls ! 1) of
                    Inl e \<Rightarrow> Inl e
                  | Inr leaf2 \<Rightarrow> Inr (os_path_join leaf1 [leaf2, str_int ts_mul]))))"


section \<open>What the theorems ask of the sort order\<close>

text \<open>
  \<open>resorting_keeps_identifiers\<close>: when a side sorts, and the sorted identifiers sort
  again, they come back as they are. In safe mode \<^verbatim>\<open>_reactant_leaf\<close> asserts as much of
  every side it is given (\<^verbatim>\<open>tuple(ichs) == automol.chi.sorted_(ichs)\<close>).

  Two ways of sorting meet it. \<open>argsort_keeps_sorted\<close>: on the list that results from
  sorting, \<^verbatim>\<open>argsort\<close> returns the positions in order, as a stable sort does.
  \<open>sorts_by key\<close>: \<^verbatim>\<open>argsort\<close> returns a permutation of the positions that puts the
  keys of the identifiers in ascending order, whatever it does with equal identifiers.
\<close>

definition resorting_keeps_identifiers ::
  "(string list \<Rightarrow> nat list) \<Rightarrow> string list \<Rightarrow> bool" where
  "resorting_keeps_identifiers srt ichs =
     (case pick ichs (srt ichs) of
        Inl e \<Rightarrow> True
      | Inr s \<Rightarrow> (case pick s (srt s) of Inl e \<Rightarrow> True | Inr s' \<Rightarrow> s' = s))"

definition argsort_keeps_sorted :: "(string list \<Rightarrow> nat list) \<Rightarrow> string list \<Rightarrow> bool" where
  "argsort_keeps_sorted srt ichs =
     (srt (map (\<lambda>idx. ichs ! idx) (srt ichs)) = [0..<length (srt ichs)])"

definition sorts_by ::
  "(string \<Rightarrow> 'k::linorder) \<Rightarrow> (string list \<Rightarrow> nat list) \<Rightarrow> string list \<Rightarrow> bool" where
  "sorts_by key srt ichs =
     (mset (srt ichs) = mset [0..<length ichs]
      \<and> sorted (map key (map (\<lambda>idx. ichs ! idx) (srt ichs))))"


section \<open>A stand-in for the collaborators\<close>

text \<open>
  Modelled from the spec: \<^verbatim>\<open>automol.chi.argsort\<close> is not in the source; the specification
  has it sort by ``a canonical identifier ordering (lexicographic/structural ordering
  from the chemistry identifier system)''. \<open>stable_argsort key\<close> is the stable sort by a
  key of the identifier, returning positions; \<open>lex_argsort\<close> takes the identifier itself
  as the key, that is the order of the strings.
\<close>

definition stable_argsort :: "(string \<Rightarrow> 'k::linorder) \<Rightarrow> string list \<Rightarrow> nat list" where
  "stable_argsort key ichs =
     map snd (sort_key (\<lambda>p. key (fst p)) (zip ichs [0..<length ichs]))"

definition lex_argsort :: "string list \<Rightarrow> nat list" where
  "lex_argsort = stable_argsort (\<lambda>ich. ich)"

text \<open>
  The ``even electron count parity rule'' of the specification: with \<open>n\<close> electrons left
  after the charge, a multiplicity \<open>mul\<close> needs \<open>mul - 1\<close> unpaired electrons among them
  and an even number of paired ones. The electron count of the neutral species is a
  parameter.
\<close>

definition parity_rule :: "(string \<Rightarrow> int) \<Rightarrow> string \<Rightarrow> int \<Rightarrow> int \<Rightarrow> bool" where
  "parity_rule electrons ich mul chg =
     (let n = electrons ich - chg in 1 \<le> mul \<and> mul - 1 \<le> n \<and> even (n - (mul - 1)))"

text \<open>
  Modelled from the spec: \<^verbatim>\<open>is_valid_inchi_multiplicity\<close> of \<^verbatim>\<open>autofile.schema._util\<close> is
  not in the source. The specification has it as a ``Precondition (checked only when a
  global "safe mode" flag is enabled): identifier must be in standard/complete canonical
  form; charge/multiplicity combination must be chemically valid for that identifier
  (even electron count parity rule)''. So the check is the parity rule when the flag is
  on, and passes when it is off.
\<close>

definition spec_is_valid_inchi_multiplicity ::
  "(string \<Rightarrow> int) \<Rightarrow> bool \<Rightarrow> string \<Rightarrow> int \<Rightarrow> int \<Rightarrow> bool" where
  "spec_is_valid_inchi_multiplicity electrons safemode ich mul chg =
     (if safemode then parity_rule electrons ich mul chg else True)"

text \<open>
  The stand-in used to evaluate the functions at concrete inputs, under a setting of the
  safe-mode flag: it knows the hydrogen atom, the hydrogen molecule, the oxygen atom,
  hydroxyl and water, orders identifiers as strings, joins identifiers by their formula
  layers, and abbreviates the key and its hashes.
\<close>

definition toy_electrons :: "string \<Rightarrow> int" where
  "toy_electrons ich =
     (if ich = ''InChI=1S/H'' then 1
      else if ich = ''InChI=1S/H2/h1H'' then 2
      else if ich = ''InChI=1S/O'' then 8
      else if ich = ''InChI=1S/HO/h1H'' then 9
      else if ich = ''InChI=1S/H2O/h1H2'' then 10
      else 0)"

definition toy_formula_layer :: "string \<Rightarrow> string" where
  "toy_formula_layer ich = takeWhile (\<lambda>c. c \<noteq> CHR ''/'') (drop 9 ich)"

definition toy_chem :: "bool \<Rightarrow> chem" where
  "toy_chem safemode =
     \<lparr> chi_argsort = lex_argsort,
       chi_sorted = (\<lambda>ichs. map (\<lambda>idx. ichs ! idx) (lex_argsort ichs)),
       chi_is_standard_form = (\<lambda>ich. take 9 ich = ''InChI=1S/''),
       chi_is_complete = (\<lambda>ich. True),
       chi_join = (\<lambda>ichs. ''InChI=1S/'' @ str_join ''.'' (map toy_formula_layer ichs)),
       chi_standard_form = (\<lambda>ich. ich),
       chi_inchi_key = (\<lambda>ich. drop 9 ich),
       chi_formula_layer = toy_formula_layer,
       key_first_hash = (\<lambda>ick. ''KEY1''),
       key_second_hash_with_extension = (\<lambda>ick. ''KEY2-N''),
       is_valid_inchi_multiplicity = spec_is_valid_inchi_multiplicity toy_electrons safemode \<rparr>"


section \<open>Properties of the builtins\<close>

lemma digit_char_simps:
  "digit_char 0 = CHR ''0''" "digit_char 1 = CHR ''1''" "digit_char 2 = CHR ''2''"
  "digit_char 3 = CHR ''3''" "digit_char 4 = CHR ''4''" "digit_char 5 = CHR ''5''"
  "digit_char 6 = CHR ''6''" "digit_char 7 = CHR ''7''" "digit_char 8 = CHR ''8''"
  "digit_char 9 = CHR ''9''" "digit_char (Suc 0) = CHR ''1''"
  by code_simp+

lemma length_dec_nat_small: "n < 10 \<Longrightarrow> dec_nat n = [digit_char n]"
  by (simp add: dec_nat.simps)

lemma dec_nat_two_digits:
  "10 \<le> n \<Longrightarrow> n < 100 \<Longrightarrow> dec_nat n = [digit_char (n div 10), digit_char (n mod 10)]"
  by (subst dec_nat.simps) (simp add: dec_nat.simps)

lemma fmt_02d_two_digits:
  assumes "0 \<le> n" "n \<le> 99"
  shows "fmt_02d n = [digit_char (nat n div 10), digit_char (nat n mod 10)]"
proof (cases "nat n < 10")
  case True
  then show ?thesis
    using assms by (simp add: fmt_02d_def length_dec_nat_small digit_char_simps)
next
  case False
  then have "10 \<le> nat n" "nat n < 100"
    using assms by auto
  then show ?thesis
    using assms by (simp add: fmt_02d_def dec_nat_two_digits)
qed

lemma is_digit_digit_char: "d < 10 \<Longrightarrow> is_digit (digit_char d)"
  by (simp add: is_digit_def digit_char_def)

lemma digit_val_digit_char: "d < 10 \<Longrightarrow> digit_val (digit_char d) = d"
  by (simp add: digit_val_def digit_char_def)

lemma digit_char_not_special:
  "d < 10 \<Longrightarrow> digit_char d \<noteq> CHR ''_'' \<and> digit_char d \<noteq> CHR ''-'' \<and> digit_char d \<noteq> CHR ''+''
     \<and> \<not> is_space (digit_char d)"
proof -
  assume d: "d < 10"
  have "(of_char (digit_char d) :: nat) = 48 + d"
    using d by (simp add: digit_char_def)
  moreover have "(of_char CHR ''_'' :: nat) = 95" "(of_char CHR ''-'' :: nat) = 45"
    "(of_char CHR ''+'' :: nat) = 43"
    by simp_all
  ultimately show ?thesis
    using d by (auto simp: is_space_def)
qed

lemma py_int_two_digits:
  assumes "a < 10" "b < 10"
  shows "py_int [digit_char a, digit_char b] = Inr (int (10 * a + b))"
  using assms digit_char_not_special [of a] digit_char_not_special [of b]
  by (simp add: py_int_def is_digit_digit_char digit_val_digit_char)


section \<open>Numeric leaves: range check, format and round trip\<close>

text \<open>
  C6. For every integer \<open>n\<close> with \<open>0 \<le> n \<le> 99\<close>, \<^verbatim>\<open>transition_state_leaf\<close>,
  \<^verbatim>\<open>zmatrix_leaf\<close> and \<^verbatim>\<open>vrctst_leaf\<close> return the two decimal digits of \<open>n\<close>
  (tens, then units), and \<^verbatim>\<open>int\<close> of that string is \<open>n\<close> again. For \<open>n = 100\<close>,
  \<open>n = -1\<close> and every argument that is not an integer, each of them fails with an
  assertion error.
\<close>

theorem numeric_leaf_roundtrip_and_range:
  "(0 \<le> n \<and> n \<le> 99 \<longrightarrow>
      transition_state_leaf (PyInt n) = Inr [digit_char (nat n div 10), digit_char (nat n mod 10)]
    \<and> zmatrix_leaf (PyInt n) = Inr [digit_char (nat n div 10), digit_char (nat n mod 10)]
    \<and> vrctst_leaf (PyInt n) = Inr [digit_char (nat n div 10), digit_char (nat n mod 10)]
    \<and> py_int [digit_char (nat n div 10), digit_char (nat n mod 10)] = Inr n)
   \<and> transition_state_leaf (PyInt 100) = Inl AssertionError
   \<and> zmatrix_leaf (PyInt 100) = Inl AssertionError
   \<and> vrctst_leaf (PyInt 100) = Inl AssertionError
   \<and> transition_state_leaf (PyInt (- 1)) = Inl AssertionError
   \<and> zmatrix_leaf (PyInt (- 1)) = Inl AssertionError
   \<and> vrctst_leaf (PyInt (- 1)) = Inl AssertionError
   \<and> (as_integral v = None \<longrightarrow>
        transition_state_leaf v = Inl AssertionError
      \<and> zmatrix_leaf v = Inl AssertionError
      \<and> vrctst_leaf v = Inl AssertionError)"
proof -
  have ok: "0 \<le> n \<and> n \<le> 99 \<longrightarrow>
      transition_state_leaf (PyInt n) = Inr [digit_char (nat n div 10), digit_char (nat n mod 10)]
    \<and> zmatrix_leaf (PyInt n) = Inr [digit_char (nat n div 10), digit_char (nat n mod 10)]
    \<and> vrctst_leaf (PyInt n) = Inr [digit_char (nat n div 10), digit_char (nat n mod 10)]
    \<and> py_int [digit_char (nat n div 10), digit_char (nat n mod 10)] = Inr n"
  proof
    assume r: "0 \<le> n \<and> n \<le> 99"
    then have f: "fmt_02d n = [digit_char (nat n div 10), digit_char (nat n mod 10)]"
      by (simp add: fmt_02d_two_digits)
    have a: "nat n div 10 < 10" and b: "nat n mod 10 < 10"
      using r by auto
    have "int (10 * (nat n div 10) + nat n mod 10) = n"
      using r by simp
    then have p: "py_int [digit_char (nat n div 10), digit_char (nat n mod 10)] = Inr n"
      using py_int_two_digits [OF a b] by simp
    show "transition_state_leaf (PyInt n) = Inr [digit_char (nat n div 10), digit_char (nat n mod 10)]
      \<and> zmatrix_leaf (PyInt n) = Inr [digit_char (nat n div 10), digit_char (nat n mod 10)]
      \<and> vrctst_leaf (PyInt n) = Inr [digit_char (nat n div 10), digit_char (nat n mod 10)]
      \<and> py_int [digit_char (nat n div 10), digit_char (nat n mod 10)] = Inr n"
      using r f p by (simp add: transition_state_leaf_def zmatrix_leaf_def vrctst_leaf_def)
  qed
  have bad: "transition_state_leaf (PyInt 100) = Inl AssertionError"
    "zmatrix_leaf (PyInt 100) = Inl AssertionError"
    "vrctst_leaf (PyInt 100) = Inl AssertionError"
    "transition_state_leaf (PyInt (- 1)) = Inl AssertionError"
    "zmatrix_leaf (PyInt (- 1)) = Inl AssertionError"
    "vrctst_leaf (PyInt (- 1)) = Inl AssertionError"
    by (simp_all add: transition_state_leaf_def zmatrix_leaf_def vrctst_leaf_def)
  have non: "as_integral v = None \<longrightarrow>
        transition_state_leaf v = Inl AssertionError
      \<and> zmatrix_leaf v = Inl AssertionError
      \<and> vrctst_leaf v = Inl AssertionError"
    by (simp add: transition_state_leaf_def zmatrix_leaf_def vrctst_leaf_def)
  from ok bad non show ?thesis
    by blast
qed

theorem numeric_leaf_roundtrip_and_range_witness:
  "transition_state_leaf (PyInt 7) = Inr ''07''
   \<and> zmatrix_leaf (PyInt 7) = Inr ''07''
   \<and> vrctst_leaf (PyInt 7) = Inr ''07''
   \<and> py_int ''07'' = Inr 7
   \<and> as_integral (PyStr ''7'') = None
   \<and> transition_state_leaf (PyStr ''7'') = Inl AssertionError
   \<and> zmatrix_leaf (PyFloat (Finite False 7 0)) = Inl AssertionError
   \<and> vrctst_leaf PyNone = Inl AssertionError"
  using numeric_leaf_roundtrip_and_range [of 7 "PyStr ''7''"]
    numeric_leaf_roundtrip_and_range [of 7 "PyFloat (Finite False 7 0)"]
    numeric_leaf_roundtrip_and_range [of 7 PyNone]
  by (simp add: digit_char_simps)

lemma length_dec_nat_pos: "Suc 0 \<le> length (dec_nat n)"
proof (cases "n < 10")
  case True
  then show ?thesis
    by (simp add: length_dec_nat_small)
next
  case False
  then show ?thesis
    by (subst dec_nat.simps) simp
qed

lemma length_dec_nat_ge2: "10 \<le> n \<Longrightarrow> 2 \<le> length (dec_nat n)"
  using length_dec_nat_pos [of "n div 10"] by (subst dec_nat.simps) simp

lemma fmt_0r2d_eq:
  "fmt_0r2d i = (if 0 \<le> i \<and> i \<le> 9 then [CHR ''0'', digit_char (nat i)] else str_int i)"
proof -
  consider "i < 0" | "0 \<le> i" "i \<le> 9" | "10 \<le> i"
    by linarith
  then show ?thesis
  proof cases
    case 1
    then show ?thesis
      using length_dec_nat_pos [of "nat (- i)"] by (simp add: fmt_0r2d_def str_int_def)
  next
    case 2
    then show ?thesis
      by (simp add: fmt_0r2d_def str_int_def length_dec_nat_small)
  next
    case 3
    then have "2 \<le> length (dec_nat (nat i))"
      by (simp add: length_dec_nat_ge2)
    with 3 show ?thesis
      by (simp add: fmt_0r2d_def str_int_def)
  qed
qed

lemma py_index_ascii_uppercase:
  "- 26 \<le> i \<Longrightarrow> i < 26 \<Longrightarrow>
   py_index ascii_uppercase i = Inr (ascii_uppercase ! nat (if i < 0 then 26 + i else i))"
  by (simp add: py_index_def ascii_uppercase_def)


section \<open>Sub-run leaves\<close>

text \<open>
  C7. For all integers \<open>macro_idx\<close> and \<open>micro_idx\<close> with \<open>0 \<le> macro_idx < 26\<close>,
  \<^verbatim>\<open>subrun_leaf\<close> returns the upper-case letter at position \<open>macro_idx\<close> of the alphabet
  followed by \<open>micro_idx\<close> padded with a zero to two digits (two decimal digits for
  \<open>0 \<le> micro_idx \<le> 99\<close>), so that \<^verbatim>\<open>subrun_leaf(0, 3) == 'A03'\<close>; for
  \<open>macro_idx \<ge> 26\<close> it fails with an assertion error, \<^verbatim>\<open>subrun_leaf(26, 0)\<close> among them.
\<close>

theorem subrun_leaf_letter_then_padded_index:
  "(0 \<le> ma \<and> ma < 26 \<longrightarrow>
      subrun_leaf (PyInt ma) (PyInt mi) =
        Inr (ascii_uppercase ! nat ma #
             (if 0 \<le> mi \<and> mi \<le> 9 then [CHR ''0'', digit_char (nat mi)] else str_int mi))
    \<and> (0 \<le> mi \<and> mi \<le> 99 \<longrightarrow>
          subrun_leaf (PyInt ma) (PyInt mi) =
            Inr [ascii_uppercase ! nat ma, digit_char (nat mi div 10), digit_char (nat mi mod 10)]))
   \<and> (26 \<le> ma \<longrightarrow> subrun_leaf (PyInt ma) (PyInt mi) = Inl AssertionError)
   \<and> subrun_leaf (PyInt 0) (PyInt 3) = Inr ''A03''
   \<and> subrun_leaf (PyInt 26) (PyInt 0) = Inl AssertionError"
proof -
  have gen: "subrun_leaf (PyInt ma) (PyInt mi) =
        Inr (ascii_uppercase ! nat ma #
             (if 0 \<le> mi \<and> mi \<le> 9 then [CHR ''0'', digit_char (nat mi)] else str_int mi))"
    if "0 \<le> ma \<and> ma < 26" for ma mi
    using that py_index_ascii_uppercase [of ma]
    by (simp add: subrun_leaf_def fmt_0r2d_eq)
  have two: "subrun_leaf (PyInt ma) (PyInt mi) =
        Inr [ascii_uppercase ! nat ma, digit_char (nat mi div 10), digit_char (nat mi mod 10)]"
    if m: "0 \<le> ma \<and> ma < 26" and r: "0 \<le> mi \<and> mi \<le> 99" for ma mi
  proof (cases "mi \<le> 9")
    case True
    then show ?thesis
      using gen [OF m] r by (simp add: digit_char_simps)
  next
    case False
    then have "10 \<le> nat mi" "nat mi < 100"
      using r by auto
    then show ?thesis
      using gen [OF m] r False by (simp add: str_int_def dec_nat_two_digits)
  qed
  have big: "subrun_leaf (PyInt ma) (PyInt mi) = Inl AssertionError" if "26 \<le> ma" for ma mi
    using that by (simp add: subrun_leaf_def)
  have a03: "subrun_leaf (PyInt 0) (PyInt 3) = Inr ''A03''"
    using gen [of 0 3] if_True by (simp add: ascii_uppercase_def digit_char_simps)
  have b26: "subrun_leaf (PyInt 26) (PyInt 0) = Inl AssertionError"
    by (simp add: subrun_leaf_def)
  from gen two big a03 b26 show ?thesis
    by blast
qed

theorem subrun_leaf_letter_then_padded_index_witness:
  "subrun_leaf (PyInt 2) (PyInt 14) = Inr ''C14''
   \<and> subrun_leaf (PyInt 25) (PyInt 5) = Inr ''Z05''
   \<and> subrun_leaf (PyInt 2) (PyInt 123) = Inr ''C123''
   \<and> subrun_leaf (PyInt 31) (PyInt 14) = Inl AssertionError"
proof -
  have d: "dec_nat 123 = ''123''" "dec_nat 14 = ''14''"
    by (simp_all add: dec_nat.simps digit_char_simps)
  show ?thesis
    using subrun_leaf_letter_then_padded_index [of 2 14]
      subrun_leaf_letter_then_padded_index [of 25 5]
      subrun_leaf_letter_then_padded_index [of 2 123]
      subrun_leaf_letter_then_padded_index [of 31 14]
    by (simp add: ascii_uppercase_def digit_char_simps str_int_def d)
qed

text \<open>
  C8. \<^verbatim>\<open>subrun_leaf\<close> has no lower bound on \<open>macro_idx\<close>: for every integer
  \<open>macro_idx\<close> with \<open>-26 \<le> macro_idx \<le> -1\<close> and every integer \<open>micro_idx\<close> it does not
  fail, but takes the letter by counting from the end of the alphabet (position
  \<open>26 + macro_idx\<close>); \<^verbatim>\<open>subrun_leaf(-1, 0)\<close> is \<^verbatim>\<open>'Z00'\<close>.
\<close>

theorem subrun_leaf_negative_macro_wraps:
  "(- 26 \<le> ma \<and> ma \<le> - 1 \<longrightarrow>
      subrun_leaf (PyInt ma) (PyInt mi) =
        Inr (ascii_uppercase ! nat (26 + ma) #
             (if 0 \<le> mi \<and> mi \<le> 9 then [CHR ''0'', digit_char (nat mi)] else str_int mi)))
   \<and> subrun_leaf (PyInt (- 1)) (PyInt 0) = Inr ''Z00''"
proof -
  have gen: "subrun_leaf (PyInt ma) (PyInt mi) =
        Inr (ascii_uppercase ! nat (26 + ma) #
             (if 0 \<le> mi \<and> mi \<le> 9 then [CHR ''0'', digit_char (nat mi)] else str_int mi))"
    if "- 26 \<le> ma \<and> ma \<le> - 1" for ma mi
    using that py_index_ascii_uppercase [of ma]
    by (simp add: subrun_leaf_def fmt_0r2d_eq)
  have "subrun_leaf (PyInt (- 1)) (PyInt 0) = Inr ''Z00''"
    using gen [of "- 1" 0] by (simp add: ascii_uppercase_def digit_char_simps)
  with gen show ?thesis
    by blast
qed

theorem subrun_leaf_negative_macro_wraps_witness:
  "subrun_leaf (PyInt (- 26)) (PyInt 7) = Inr ''A07''
   \<and> subrun_leaf (PyInt (- 3)) (PyInt 42) = Inr ''X42''"
proof -
  have d: "dec_nat 42 = ''42''"
    by (simp add: dec_nat.simps digit_char_simps)
  show ?thesis
    using subrun_leaf_negative_macro_wraps [of "- 26" 7]
      subrun_leaf_negative_macro_wraps [of "- 3" 42]
    by (simp add: ascii_uppercase_def digit_char_simps str_int_def d)
qed


section \<open>Build numbers\<close>

text \<open>
  C10. For every integer \<open>n\<close>, negative ones included, \<^verbatim>\<open>get_next_build_number(n)\<close> is
  an integer between 0 and 9 that differs from \<open>n\<close> by a multiple of ten, that is
  \<open>n\<close> modulo 10 with a non-negative remainder; \<^verbatim>\<open>get_next_build_number(-1)\<close> is 9. The
  function is total on the integers.
\<close>

theorem get_next_build_number_range:
  "0 \<le> get_next_build_number n \<and> get_next_build_number n \<le> 9
   \<and> get_next_build_number n = n mod 10
   \<and> 10 dvd (n - get_next_build_number n)
   \<and> get_next_build_number (- 1) = 9"
  by (simp add: get_next_build_number_def)


section \<open>Identifier validation is the identity on valid identifiers\<close>

text \<open>
  C9. For every string whose first character is the tag (\<^verbatim>\<open>r\<close> for
  \<^verbatim>\<open>conformer_branch\<close>, \<^verbatim>\<open>c\<close> for \<^verbatim>\<open>conformer_leaf\<close>, \<^verbatim>\<open>t\<close> for \<^verbatim>\<open>tau_leaf\<close>) and
  whose remainder satisfies the random-string-identifier predicate, the function returns
  the string itself.
\<close>

theorem identifier_validation_identity:
  "is_rsi rest \<longrightarrow>
     conformer_branch is_rsi (CHR ''r'' # rest) = Inr (CHR ''r'' # rest)
   \<and> conformer_leaf is_rsi (CHR ''c'' # rest) = Inr (CHR ''c'' # rest)
   \<and> tau_leaf is_rsi (CHR ''t'' # rest) = Inr (CHR ''t'' # rest)"
  by (simp add: conformer_branch_def conformer_leaf_def tau_leaf_def py_index_def)

theorem identifier_validation_identity_witness:
  "list_all is_alnum ''AB12cd''
   \<and> conformer_branch (list_all is_alnum) ''rAB12cd'' = Inr ''rAB12cd''
   \<and> conformer_leaf (list_all is_alnum) ''cAB12cd'' = Inr ''cAB12cd''
   \<and> tau_leaf (list_all is_alnum) ''tAB12cd'' = Inr ''tAB12cd''"
proof -
  have h: "list_all is_alnum ''AB12cd''"
    by (simp add: is_alnum_def)
  show ?thesis
    using h identifier_validation_identity [of "list_all is_alnum" "''AB12cd''"] by simp
qed

section \<open>Characters of the returned names\<close>

lemma is_alnum_digit_char: "d < 10 \<Longrightarrow> is_alnum (digit_char d)"
  by (simp add: is_alnum_def digit_char_def)

lemma list_all_alnum_dec_nat: "list_all is_alnum (dec_nat n)"
proof (induction n rule: dec_nat.induct)
  case (1 n)
  show ?case
  proof (cases "n < 10")
    case True
    then show ?thesis
      by (simp add: length_dec_nat_small is_alnum_digit_char)
  next
    case False
    then have "list_all is_alnum (dec_nat (n div 10))"
      using "1.IH" by simp
    then show ?thesis
      using False by (subst dec_nat.simps) (simp add: is_alnum_digit_char)
  qed
qed

lemma list_all_str_join:
  "list_all P sep \<Longrightarrow> list_all (list_all P) xs \<Longrightarrow> list_all P (str_join sep xs)"
  by (induction sep xs rule: str_join.induct) simp_all

lemma fmt_2f_chars: "list_all (\<lambda>c. fs_safe c \<or> c = CHR ''.'') (fmt_2f v)"
proof (cases v)
  case (Finite s m e)
  have "list_all is_alnum (dec_nat (hundredths m e div 100))"
    by (rule list_all_alnum_dec_nat)
  then have "list_all (\<lambda>c. fs_safe c \<or> c = CHR ''.'') (dec_nat (hundredths m e div 100))"
    by (rule list.pred_mono_strong) (simp add: fs_safe_def)
  then show ?thesis
    using Finite by (simp add: Let_def fs_safe_def is_alnum_digit_char)
next
  case (Infinity s)
  then show ?thesis
    by (simp add: fs_safe_def is_alnum_def)
next
  case NaN
  then show ?thesis
    by (simp add: fs_safe_def is_alnum_def)
qed

lemma str_join_fmt_2f_chars:
  "list_all (\<lambda>c. fs_safe c \<or> c = CHR ''.'') (str_join ''_'' (map fmt_2f vals))"
proof (rule list_all_str_join)
  show "list_all (\<lambda>c. fs_safe c \<or> c = CHR ''.'') ''_''"
    by (simp add: fs_safe_def)
  show "list_all (list_all (\<lambda>c. fs_safe c \<or> c = CHR ''.'')) (map fmt_2f vals)"
    by (induction vals) (simp_all add: fmt_2f_chars)
qed

lemma fmt_02d_chars: "0 \<le> n \<Longrightarrow> list_all fs_safe (fmt_02d n)"
proof -
  assume "0 \<le> n"
  have "list_all is_alnum (dec_nat (nat \<bar>n\<bar>))"
    by (rule list_all_alnum_dec_nat)
  then have "list_all fs_safe (dec_nat (nat \<bar>n\<bar>))"
    by (rule list.pred_mono_strong) (simp add: fs_safe_def)
  moreover have "fs_safe CHR ''0''"
    by (simp add: fs_safe_def is_alnum_def)
  ultimately show ?thesis
    using \<open>0 \<le> n\<close> by (auto simp: fmt_02d_def Let_def list_all_iff)
qed

lemma trunk_names_chars: "list_all (list_all fs_safe) trunk_names"
  by (simp add: trunk_names_def species_trunk_def reaction_trunk_def
      transition_state_trunk_def conformer_trunk_def single_point_trunk_def
      high_spin_trunk_def symmetry_trunk_def zmatrix_trunk_def scan_trunk_def
      cscan_trunk_def tau_trunk_def energy_transfer_trunk_def vrctst_trunk_def
      run_trunk_def fs_safe_def is_alnum_def)

lemma str_int_chars: "list_all fs_safe (str_int i)"
proof -
  have "list_all fs_safe (dec_nat n)" for n
    using list_all_alnum_dec_nat [of n] by (rule list.pred_mono_strong) (simp add: fs_safe_def)
  then show ?thesis
    by (simp add: str_int_def fs_safe_def)
qed

lemma fmt_0r2d_chars: "list_all fs_safe (fmt_0r2d i)"
proof (cases "0 \<le> i \<and> i \<le> 9")
  case True
  then have "is_alnum (digit_char (nat i))"
    by (intro is_alnum_digit_char) linarith
  moreover have "is_alnum CHR ''0''"
    by (simp add: is_alnum_def)
  ultimately show ?thesis
    using True by (simp add: fmt_0r2d_eq fs_safe_def)
next
  case False
  then have "fmt_0r2d i = str_int i"
    by (simp only: fmt_0r2d_eq if_False)
  then show ?thesis
    by (simp add: str_int_chars)
qed

lemma py_index_ascii_uppercase_alnum:
  assumes "py_index ascii_uppercase i = Inr c"
  shows "is_alnum c"
proof -
  have all: "list_all is_alnum ascii_uppercase"
    by (simp add: ascii_uppercase_def is_alnum_def)
  from assms have "\<exists>k. k < length ascii_uppercase \<and> c = ascii_uppercase ! k"
  proof (cases "0 \<le> i")
    case True
    with assms have "nat i < length ascii_uppercase" "c = ascii_uppercase ! nat i"
      by (auto simp: py_index_def split: if_splits)
    then show ?thesis by blast
  next
    case False
    with assms have "nat (int (length ascii_uppercase) + i) < length ascii_uppercase"
      "c = ascii_uppercase ! nat (int (length ascii_uppercase) + i)"
      by (auto simp: py_index_def split: if_splits)
    then show ?thesis by blast
  qed
  then obtain k where "k < length ascii_uppercase" "c = ascii_uppercase ! k"
    by blast
  with all show ?thesis
    by (simp add: list_all_iff)
qed

lemma subrun_leaf_chars:
  assumes "subrun_leaf macro_idx micro_idx = Inr t"
  shows "list_all fs_safe t"
proof -
  from assms obtain ma mi c where c: "py_index ascii_uppercase ma = Inr c"
    and t: "t = c # fmt_0r2d mi"
    by (auto simp: subrun_leaf_def split: option.splits if_splits sum.splits)
  from py_index_ascii_uppercase_alnum [OF c] have "fs_safe c"
    by (simp add: fs_safe_def)
  with t show ?thesis
    by (simp add: fmt_0r2d_chars)
qed

lemma fmt_2f_examples:
  "fmt_2f (Finite False 1131529406376837 (- 50)) = ''1.00''"
  "fmt_2f (Finite False 2 0) = ''2.00''"
  by (simp_all add: hundredths_def Let_def dec_nat.simps digit_char_simps)

text \<open>
  C4, as stated: every returned name is made of letters, digits, underscore, hyphen and
  the at sign only, in particular every \<^verbatim>\<open>scan_leaf\<close> and \<^verbatim>\<open>cscan_leaf\<close> output. It fails
  at the specification's own example: \<^verbatim>\<open>scan_leaf([1.005, 2.0])\<close> is \<^verbatim>\<open>'1.00_2.00'\<close>,
  which contains decimal points (1.005 is the double \<open>1131529406376837 * 2^-50\<close>,
  2.0 is \<open>2 * 2^0\<close>).
\<close>

theorem scan_leaf_safe_chars_counterexample:
  "scan_leaf [Finite False 1131529406376837 (- 50), Finite False 2 0] = ''1.00_2.00''
   \<and> \<not> list_all fs_safe (scan_leaf [Finite False 1131529406376837 (- 50), Finite False 2 0])
   \<and> \<not> list_all fs_safe (cscan_leaf [Finite False 2 0])"
  by (simp add: scan_leaf_def cscan_leaf_def fmt_2f_examples fs_safe_def is_alnum_def
      del: fmt_2f.simps)

text \<open>
  C4, amended: for every list of floats the \<^verbatim>\<open>scan_leaf\<close> and \<^verbatim>\<open>cscan_leaf\<close> outputs are
  made of letters, digits, underscore, hyphen, the at sign and the decimal point; the
  trunk names and every name returned by \<^verbatim>\<open>transition_state_leaf\<close>, \<^verbatim>\<open>zmatrix_leaf\<close>,
  \<^verbatim>\<open>vrctst_leaf\<close> and \<^verbatim>\<open>subrun_leaf\<close> are made of letters, digits, underscore, hyphen
  and the at sign.
\<close>

theorem leaf_names_chars:
  "list_all (\<lambda>c. fs_safe c \<or> c = CHR ''.'') (scan_leaf vals)
   \<and> list_all (\<lambda>c. fs_safe c \<or> c = CHR ''.'') (cscan_leaf vals)
   \<and> list_all (list_all fs_safe) trunk_names
   \<and> (transition_state_leaf num = Inr s \<longrightarrow> list_all fs_safe s)
   \<and> (zmatrix_leaf num = Inr s \<longrightarrow> list_all fs_safe s)
   \<and> (vrctst_leaf num = Inr s \<longrightarrow> list_all fs_safe s)
   \<and> (subrun_leaf macro_idx micro_idx = Inr t \<longrightarrow> list_all fs_safe t)"
proof -
  have "transition_state_leaf num = Inr s \<longrightarrow> list_all fs_safe s"
    by (auto simp: transition_state_leaf_def fmt_02d_chars split: option.splits if_splits)
  moreover have "zmatrix_leaf num = Inr s \<longrightarrow> list_all fs_safe s"
    by (auto simp: zmatrix_leaf_def fmt_02d_chars split: option.splits if_splits)
  moreover have "vrctst_leaf num = Inr s \<longrightarrow> list_all fs_safe s"
    by (auto simp: vrctst_leaf_def fmt_02d_chars split: option.splits if_splits)
  moreover have "subrun_leaf macro_idx micro_idx = Inr t \<longrightarrow> list_all fs_safe t"
    using subrun_leaf_chars by blast
  ultimately show ?thesis
    by (simp add: scan_leaf_def cscan_leaf_def str_join_fmt_2f_chars trunk_names_chars)
qed

theorem leaf_names_chars_witness:
  "transition_state_leaf (PyInt 42) = Inr ''42'' \<and> list_all fs_safe ''42''
   \<and> zmatrix_leaf (PyInt 42) = Inr ''42''
   \<and> vrctst_leaf (PyInt 42) = Inr ''42''
   \<and> subrun_leaf (PyInt (- 2)) (PyInt (- 7)) = Inr ''Y-7'' \<and> list_all fs_safe ''Y-7''
   \<and> list_all (\<lambda>c. fs_safe c \<or> c = CHR ''.'') (scan_leaf [Finite True 3 (- 3), Infinity True, NaN])"
proof -
  have l: "transition_state_leaf (PyInt 42) = Inr ''42''" "zmatrix_leaf (PyInt 42) = Inr ''42''"
    "vrctst_leaf (PyInt 42) = Inr ''42''"
    by (simp_all add: transition_state_leaf_def zmatrix_leaf_def vrctst_leaf_def fmt_02d_def
        dec_nat.simps digit_char_simps)
  have u: "subrun_leaf (PyInt (- 2)) (PyInt (- 7)) = Inr ''Y-7''"
    by (simp add: subrun_leaf_def py_index_def ascii_uppercase_def fmt_0r2d_def str_int_def
        dec_nat.simps digit_char_simps)
  show ?thesis
    using l u
      leaf_names_chars [of "[Finite True 3 (- 3), Infinity True, NaN]" "PyInt 42" "''42''"
        "PyInt (- 2)" "PyInt (- 7)" "''Y-7''"]
    by simp
qed


section \<open>Sorting the sides of a reaction\<close>

lemma pick_in_range:
  "list_all (\<lambda>i. i < length xs) idxs \<Longrightarrow> pick xs idxs = Inr (map (\<lambda>i. xs ! i) idxs)"
  by (induction idxs) simp_all

lemma pick_InrD:
  "pick xs idxs = Inr ys \<Longrightarrow> list_all (\<lambda>i. i < length xs) idxs \<and> ys = map (\<lambda>i. xs ! i) idxs"
proof (induction idxs arbitrary: ys)
  case Nil
  then show ?case by simp
next
  case (Cons i idxs)
  from Cons.prems obtain zs where i: "i < length xs" and z: "pick xs idxs = Inr zs"
    and y: "ys = xs ! i # zs"
    by (auto split: if_splits sum.splits)
  from Cons.IH [OF z] i y show ?case
    by simp
qed

lemma pick_Inr_iff:
  "pick xs idxs = Inr ys \<longleftrightarrow> list_all (\<lambda>i. i < length xs) idxs \<and> ys = map (\<lambda>i. xs ! i) idxs"
  using pick_in_range pick_InrD by blast

lemma pick_Inl: "pick xs idxs = Inl e \<Longrightarrow> e = IndexError"
  by (induction idxs) (auto split: sum.splits if_splits)

lemma pick_upt: "n = length xs \<Longrightarrow> pick xs [0..<n] = Inr xs"
  by (simp add: pick_Inr_iff list_all_iff map_nth)

lemma priv_sort_together_InrD:
  assumes "priv_sort_together srt ichs chgs muls = Inr (si, sc, sm)"
  shows "list_all (\<lambda>i. i < length ichs) (srt ichs)"
    and "list_all (\<lambda>i. i < length chgs) (srt ichs)"
    and "list_all (\<lambda>i. i < length muls) (srt ichs)"
    and "si = map (\<lambda>i. ichs ! i) (srt ichs)"
    and "sc = map (\<lambda>i. chgs ! i) (srt ichs)"
    and "sm = map (\<lambda>i. muls ! i) (srt ichs)"
  using assms
  by (auto simp: priv_sort_together_def Let_def split: sum.splits dest!: pick_InrD)

lemma priv_sort_together_Inl: "priv_sort_together srt ichs chgs muls = Inl e \<Longrightarrow> e = IndexError"
  by (auto simp: priv_sort_together_def Let_def split: sum.splits dest: pick_Inl)

lemma priv_sortable_representation_Inl:
  "priv_sortable_representation srt ichs chgs muls = Inl e \<Longrightarrow> e = IndexError"
  by (auto simp: priv_sortable_representation_def Let_def split: sum.splits dest: pick_Inl)

lemma sorted_side_picked:
  assumes "priv_sort_together srt ichs chgs muls = Inr (si, sc, sm)"
  shows "pick ichs (srt ichs) = Inr si"
  using priv_sort_together_InrD(1,4) [OF assms] by (simp add: pick_in_range)

lemma sorted_side_representation:
  assumes "priv_sort_together srt ichs chgs muls = Inr (si, sc, sm)"
    and "resorting_keeps_identifiers srt ichs"
  shows "priv_sortable_representation srt si sc sm = Inl IndexError
       \<or> priv_sortable_representation srt si sc sm = Inr (length si, si, sc, sm)"
proof (cases "pick si (srt si)")
  case (Inl e)
  then have "e = IndexError"
    by (rule pick_Inl)
  with Inl show ?thesis
    by (simp add: priv_sortable_representation_def Let_def)
next
  case (Inr s')
  with assms(2) sorted_side_picked [OF assms(1)] have "s' = si"
    by (simp add: resorting_keeps_identifiers_def)
  with Inr show ?thesis
    by (simp add: priv_sortable_representation_def Let_def)
qed

lemma sort_together_representation_fails:
  assumes "priv_sort_together srt i1 c1 m1 = Inr (si1, sc1, sm1)"
    and "priv_sort_together srt i2 c2 m2 = Inr (si2, sc2, sm2)"
    and "priv_sortable_representation srt si1 sc1 sm1 = Inl IndexError
       \<or> priv_sortable_representation srt si2 sc2 sm2 = Inl IndexError"
  shows "sort_together srt [i1, i2] [c1, c2] [m1, m2] = Inl IndexError"
proof -
  have "reaction_is_reversed srt [i1, i2] [c1, c2] [m1, m2] = Inl IndexError"
    using assms
    by (auto simp: reaction_is_reversed_def split: sum.splits
        dest: priv_sortable_representation_Inl)
  with assms(1,2) show ?thesis
    by (simp add: sort_together_def)
qed

lemma sort_together_sides:
  assumes "priv_sort_together srt i1 c1 m1 = Inr (si1, sc1, sm1)"
    and "priv_sort_together srt i2 c2 m2 = Inr (si2, sc2, sm2)"
    and "priv_sortable_representation srt si1 sc1 sm1 = Inr (length si1, si1, sc1, sm1)"
    and "priv_sortable_representation srt si2 sc2 sm2 = Inr (length si2, si2, sc2, sm2)"
  shows "sort_together srt [i1, i2] [c1, c2] [m1, m2] =
     Inr (if (length si2, si2, sc2, sm2) < (length si1, si1, sc1, sm1)
          then ([si2, si1], [sc2, sc1], [sm2, sm1])
          else ([si1, si2], [sc1, sc2], [sm1, sm2]))"
proof -
  have "reaction_is_reversed srt [i1, i2] [c1, c2] [m1, m2] =
      Inr ((length si2, si2, sc2, sm2) < (length si1, si1, sc1, sm1))"
    using assms by (simp add: reaction_is_reversed_def del: less_prod_simp)
  with assms(1,2) show ?thesis
    by (simp add: sort_together_def del: less_prod_simp)
qed

lemma sort_together_side_fails:
  assumes "priv_sort_together srt i1 c1 m1 = Inl e \<or> priv_sort_together srt i2 c2 m2 = Inl e"
  shows "sort_together srt [i1, i2] [c1, c2] [m1, m2] = Inl IndexError"
  using assms
  by (auto simp: sort_together_def split: sum.splits dest: priv_sort_together_Inl)

lemma length_two: "length xs = 2 \<Longrightarrow> \<exists>a b. xs = [a, b]"
  by (cases xs; cases "tl xs") auto

lemma sort_together_swap_sides:
  assumes "resorting_keeps_identifiers srt i1" and "resorting_keeps_identifiers srt i2"
  shows "sort_together srt [i2, i1] [c2, c1] [m2, m1] = sort_together srt [i1, i2] [c1, c2] [m1, m2]"
proof (cases "priv_sort_together srt i1 c1 m1")
  case (Inl e)
  then show ?thesis
    using sort_together_side_fails [of srt i1 c1 m1 e i2 c2 m2]
      sort_together_side_fails [of srt i2 c2 m2 e i1 c1 m1] by simp
next
  case s1: (Inr t1)
  show ?thesis
  proof (cases "priv_sort_together srt i2 c2 m2")
    case (Inl e)
    then show ?thesis
      using sort_together_side_fails [of srt i1 c1 m1 e i2 c2 m2]
        sort_together_side_fails [of srt i2 c2 m2 e i1 c1 m1] by simp
  next
    case s2: (Inr t2)
    obtain si1 sc1 sm1 where t1: "t1 = (si1, sc1, sm1)"
      by (cases t1) auto
    obtain si2 sc2 sm2 where t2: "t2 = (si2, sc2, sm2)"
      by (cases t2) auto
    note s1' = s1 [unfolded t1] and s2' = s2 [unfolded t2]
    define r1 where "r1 = (length si1, si1, sc1, sm1)"
    define r2 where "r2 = (length si2, si2, sc2, sm2)"
    show ?thesis
    proof (cases "priv_sortable_representation srt si1 sc1 sm1 = Inl IndexError
        \<or> priv_sortable_representation srt si2 sc2 sm2 = Inl IndexError")
      case True
      then have "sort_together srt [i1, i2] [c1, c2] [m1, m2] = Inl IndexError"
        by (rule sort_together_representation_fails [OF s1' s2'])
      moreover from True have "sort_together srt [i2, i1] [c2, c1] [m2, m1] = Inl IndexError"
        by (intro sort_together_representation_fails [OF s2' s1']) blast
      ultimately show ?thesis
        by simp
    next
      case False
      with sorted_side_representation [OF s1' assms(1)]
        sorted_side_representation [OF s2' assms(2)]
      have reps: "priv_sortable_representation srt si1 sc1 sm1 = Inr r1"
        "priv_sortable_representation srt si2 sc2 sm2 = Inr r2"
        by (simp_all add: r1_def r2_def)
      have a: "sort_together srt [i1, i2] [c1, c2] [m1, m2] =
          Inr (if r2 < r1 then ([si2, si1], [sc2, sc1], [sm2, sm1])
               else ([si1, si2], [sc1, sc2], [sm1, sm2]))"
        unfolding r1_def r2_def
        using sort_together_sides [OF s1' s2' reps [unfolded r1_def r2_def]] .
      have b: "sort_together srt [i2, i1] [c2, c1] [m2, m1] =
          Inr (if r1 < r2 then ([si1, si2], [sc1, sc2], [sm1, sm2])
               else ([si2, si1], [sc2, sc1], [sm2, sm1]))"
        unfolding r1_def r2_def
        using sort_together_sides [OF s2' s1' reps(2,1) [unfolded r1_def r2_def]] .
      consider "r1 < r2" | "r2 < r1" | "r1 = r2"
        by (rule linorder_cases)
      then show ?thesis
      proof cases
        case 1
        then have "\<not> r2 < r1" by (rule less_not_sym)
        with 1 a b show ?thesis by simp
      next
        case 2
        then have "\<not> r1 < r2" by (rule less_not_sym)
        with 2 a b show ?thesis by simp
      next
        case 3
        then have "si1 = si2" "sc1 = sc2" "sm1 = sm2"
          by (simp_all add: r1_def r2_def)
        with 3 a b show ?thesis by simp
      qed
    qed
  qed
qed


section \<open>Sorts that meet the requirement\<close>

lemma keeps_sorted_resorting:
  assumes "argsort_keeps_sorted srt ichs"
  shows "resorting_keeps_identifiers srt ichs"
proof (cases "pick ichs (srt ichs)")
  case (Inl e)
  then show ?thesis
    by (simp add: resorting_keeps_identifiers_def)
next
  case (Inr s)
  then have s: "s = map (\<lambda>idx. ichs ! idx) (srt ichs)"
    by (simp add: pick_Inr_iff)
  with assms have "srt s = [0..<length s]"
    by (simp add: argsort_keeps_sorted_def)
  then have "pick s (srt s) = Inr s"
    by (simp add: pick_upt)
  with Inr show ?thesis
    by (simp add: resorting_keeps_identifiers_def)
qed

lemma stable_argsort_entries:
  assumes "p \<in> set (sort_key (\<lambda>p. key (fst p)) (zip ichs [0..<length ichs]))"
  shows "snd p < length ichs \<and> ichs ! snd p = fst p"
proof -
  from assms have "p \<in> set (zip ichs [0..<length ichs])"
    by simp
  then obtain k where "k < length ichs" "p = (ichs ! k, [0..<length ichs] ! k)"
    by (auto simp: set_zip)
  then show ?thesis
    by simp
qed

lemma stable_argsort_sorted_side:
  "map (\<lambda>idx. ichs ! idx) (stable_argsort key ichs) =
     map fst (sort_key (\<lambda>p. key (fst p)) (zip ichs [0..<length ichs]))"
  using stable_argsort_entries [of _ key ichs] by (simp add: stable_argsort_def)

lemma stable_argsort_of_sorted:
  assumes "sorted (map key s)"
  shows "stable_argsort key s = [0..<length s]"
proof -
  have "map (\<lambda>p. key (fst p)) (zip s [0..<length s]) = map key s"
    by (rule nth_equalityI) simp_all
  then have "sorted (map (\<lambda>p. key (fst p)) (zip s [0..<length s]))"
    using assms by simp
  then have "sort_key (\<lambda>p. key (fst p)) (zip s [0..<length s]) = zip s [0..<length s]"
    by (rule sort_key_id_if_sorted)
  then show ?thesis
    by (simp add: stable_argsort_def)
qed

lemma stable_argsort_keeps_sorted: "argsort_keeps_sorted (stable_argsort key) ichs"
proof -
  let ?ps = "sort_key (\<lambda>p. key (fst p)) (zip ichs [0..<length ichs])"
  have "sorted (map (\<lambda>p. key (fst p)) ?ps)"
    by (rule sorted_sort_key)
  then have "sorted (map key (map fst ?ps))"
    by (simp add: comp_def)
  then have "stable_argsort key (map fst ?ps) = [0..<length (map fst ?ps)]"
    by (rule stable_argsort_of_sorted)
  moreover have "length (map fst ?ps) = length (stable_argsort key ichs)"
    by (simp add: stable_argsort_def)
  ultimately show ?thesis
    by (simp add: argsort_keeps_sorted_def stable_argsort_sorted_side)
qed

lemma stable_argsort_resorting: "resorting_keeps_identifiers (stable_argsort key) ichs"
  by (rule keeps_sorted_resorting) (rule stable_argsort_keeps_sorted)

lemma stable_argsort_sorts_by: "sorts_by key (stable_argsort key) ichs"
proof -
  let ?ps = "sort_key (\<lambda>p. key (fst p)) (zip ichs [0..<length ichs])"
  have "mset (map snd ?ps) = image_mset snd (mset (zip ichs [0..<length ichs]))"
    by simp
  also have "\<dots> = mset (map snd (zip ichs [0..<length ichs]))"
    by (simp only: mset_map)
  also have "\<dots> = mset [0..<length ichs]"
    by simp
  finally have perm: "mset (stable_argsort key ichs) = mset [0..<length ichs]"
    by (simp only: stable_argsort_def)
  have "sorted (map (\<lambda>p. key (fst p)) ?ps)"
    by (rule sorted_sort_key)
  then have "sorted (map key (map fst ?ps))"
    by (simp add: comp_def)
  then have "sorted (map key (map (\<lambda>idx. ichs ! idx) (stable_argsort key ichs)))"
    by (simp only: stable_argsort_sorted_side)
  with perm show ?thesis
    unfolding sorts_by_def by blast
qed

lemma sorts_by_picked:
  assumes "mset p = mset [0..<length xs]"
  shows "pick xs p = Inr (map (\<lambda>idx. xs ! idx) p)"
    and "mset (map (\<lambda>idx. xs ! idx) p) = mset xs"
proof -
  from assms have "set p = set [0..<length xs]"
    by (rule mset_eq_setD)
  then show "pick xs p = Inr (map (\<lambda>idx. xs ! idx) p)"
    by (intro pick_in_range) (auto simp: list_all_iff)
  have "mset (map (\<lambda>idx. xs ! idx) p) = image_mset (\<lambda>idx. xs ! idx) (mset p)"
    by simp
  also have "\<dots> = mset (map (\<lambda>idx. xs ! idx) [0..<length xs])"
    by (simp only: assms mset_map)
  also have "\<dots> = mset xs"
    by (simp only: map_nth)
  finally show "mset (map (\<lambda>idx. xs ! idx) p) = mset xs" .
qed

lemma sorts_by_resorting:
  assumes "inj key"
    and "sorts_by key srt ichs"
    and "sorts_by key srt (map (\<lambda>idx. ichs ! idx) (srt ichs))"
  shows "resorting_keeps_identifiers srt ichs"
proof -
  define s where "s = map (\<lambda>idx. ichs ! idx) (srt ichs)"
  define s' where "s' = map (\<lambda>idx. s ! idx) (srt s)"
  from assms(2) have q0: "mset (srt ichs) = mset [0..<length ichs]"
    and k1: "sorted (map key s)"
    unfolding sorts_by_def s_def by blast+
  from sorts_by_picked(1) [OF q0] have p1: "pick ichs (srt ichs) = Inr s"
    unfolding s_def .
  from assms(3) have q: "mset (srt s) = mset [0..<length s]" and k2: "sorted (map key s')"
    unfolding sorts_by_def s_def s'_def by blast+
  from sorts_by_picked [OF q] have p2: "pick s (srt s) = Inr s'" and m: "mset s' = mset s"
    unfolding s'_def by blast+
  from m have "mset (map key s') = mset (map key s)"
    by simp
  then have "sort (map key s) = map key s'"
    using k2 by (rule properties_for_sort)
  moreover have "sort (map key s) = map key s"
    using k1 by (rule sorted_sort_id)
  ultimately have "map key s' = map key s"
    by simp
  with assms(1) have "s' = s"
    by simp
  with p1 p2 show ?thesis
    by (simp add: resorting_keeps_identifiers_def)
qed


section \<open>The orientation test and the canonical order agree\<close>

text \<open>
  C3. \<^verbatim>\<open>reaction_is_reversed\<close> and \<^verbatim>\<open>sort_together\<close> agree: whenever
  \<^verbatim>\<open>reaction_is_reversed\<close> returns a truth value for an input, the input has two sides,
  both sides sort, and \<^verbatim>\<open>sort_together\<close> returns the two sorted sides swapped if the
  value is true and in their original order if it is false.
\<close>

theorem reaction_is_reversed_agrees_with_sort_together:
  "reaction_is_reversed srt rxn_ichs rxn_chgs rxn_muls = Inr reversed \<longrightarrow>
     (\<exists>ichs1 chgs1 muls1 ichs2 chgs2 muls2.
        rxn_ichs = [rxn_ichs ! 0, rxn_ichs ! 1]
      \<and> priv_sort_together srt (rxn_ichs ! 0) (rxn_chgs ! 0) (rxn_muls ! 0)
          = Inr (ichs1, chgs1, muls1)
      \<and> priv_sort_together srt (rxn_ichs ! 1) (rxn_chgs ! 1) (rxn_muls ! 1)
          = Inr (ichs2, chgs2, muls2)
      \<and> sort_together srt rxn_ichs rxn_chgs rxn_muls =
          Inr (if reversed then ([ichs2, ichs1], [chgs2, chgs1], [muls2, muls1])
               else ([ichs1, ichs2], [chgs1, chgs2], [muls1, muls2])))"
proof
  assume r: "reaction_is_reversed srt rxn_ichs rxn_chgs rxn_muls = Inr reversed"
  then have len: "length rxn_ichs = length rxn_chgs \<and> length rxn_chgs = length rxn_muls
      \<and> length rxn_muls = 2"
    by (simp add: reaction_is_reversed_def split: if_splits)
  then have two: "rxn_ichs = [rxn_ichs ! 0, rxn_ichs ! 1]"
    using length_two [of rxn_ichs] by auto
  from r len obtain t1 where s1:
    "priv_sort_together srt (rxn_ichs ! 0) (rxn_chgs ! 0) (rxn_muls ! 0) = Inr t1"
    by (auto simp: reaction_is_reversed_def split: sum.splits)
  from r len s1 obtain t2 where s2:
    "priv_sort_together srt (rxn_ichs ! 1) (rxn_chgs ! 1) (rxn_muls ! 1) = Inr t2"
    by (auto simp: reaction_is_reversed_def split: sum.splits prod.splits)
  obtain ichs1 chgs1 muls1 where t1: "t1 = (ichs1, chgs1, muls1)"
    by (cases t1) auto
  obtain ichs2 chgs2 muls2 where t2: "t2 = (ichs2, chgs2, muls2)"
    by (cases t2) auto
  have "sort_together srt rxn_ichs rxn_chgs rxn_muls =
          Inr (if reversed then ([ichs2, ichs1], [chgs2, chgs1], [muls2, muls1])
               else ([ichs1, ichs2], [chgs1, chgs2], [muls1, muls2]))"
    using r len s1 s2 t1 t2 by (simp add: sort_together_def)
  with two s1 s2 t1 t2 show "\<exists>ichs1 chgs1 muls1 ichs2 chgs2 muls2.
        rxn_ichs = [rxn_ichs ! 0, rxn_ichs ! 1]
      \<and> priv_sort_together srt (rxn_ichs ! 0) (rxn_chgs ! 0) (rxn_muls ! 0)
          = Inr (ichs1, chgs1, muls1)
      \<and> priv_sort_together srt (rxn_ichs ! 1) (rxn_chgs ! 1) (rxn_muls ! 1)
          = Inr (ichs2, chgs2, muls2)
      \<and> sort_together srt rxn_ichs rxn_chgs rxn_muls =
          Inr (if reversed then ([ichs2, ichs1], [chgs2, chgs1], [muls2, muls1])
               else ([ichs1, ichs2], [chgs1, chgs2], [muls1, muls2]))"
    by blast
qed


section \<open>The canonical order does not depend on the orientation\<close>

text \<open>
  C1. For every two-sided reaction input and its reverse (the two sides swapped),
  \<^verbatim>\<open>sort_together\<close> returns the same result, error or value; consequently
  \<^verbatim>\<open>reaction_leaf\<close> applied to the canonical form of a reaction and to the canonical form
  of its reverse returns the same path. \<^verbatim>\<open>automol.chi.argsort\<close> is not part of the source:
  what is asked of it is that the sorted identifiers of a side, sorted again, come back
  as they are. Every sort by an order of the identifiers does that, stable or not
  (\<open>sorts_by_resorting\<close>), and so does every stable sort by a key
  (\<open>stable_argsort_resorting\<close>).
\<close>

theorem reversed_reaction_same_leaf:
  assumes "resorting_keeps_identifiers (chi_argsort L) ichs1"
    and "resorting_keeps_identifiers (chi_argsort L) ichs2"
  shows "sort_together (chi_argsort L) [ichs2, ichs1] [chgs2, chgs1] [muls2, muls1]
           = sort_together (chi_argsort L) [ichs1, ichs2] [chgs1, chgs2] [muls1, muls2]
       \<and> (case sort_together (chi_argsort L) [ichs2, ichs1] [chgs2, chgs1] [muls2, muls1] of
            Inl e \<Rightarrow> Inl e
          | Inr (a, b, c) \<Rightarrow> reaction_leaf L safemode a b c ts_mul)
         = (case sort_together (chi_argsort L) [ichs1, ichs2] [chgs1, chgs2] [muls1, muls2] of
              Inl e \<Rightarrow> Inl e
            | Inr (a, b, c) \<Rightarrow> reaction_leaf L safemode a b c ts_mul)"
  using sort_together_swap_sides [OF assms, of chgs2 chgs1 muls2 muls1] by simp


section \<open>The reaction O + H2 = OH + H under the stand-in\<close>

lemma lex_argsort_examples:
  "lex_argsort [''InChI=1S/O'', ''InChI=1S/H2/h1H''] = [1, 0]"
  "lex_argsort [''InChI=1S/HO/h1H'', ''InChI=1S/H''] = [1, 0]"
  "lex_argsort [''InChI=1S/H2/h1H'', ''InChI=1S/O''] = [0, 1]"
  "lex_argsort [''InChI=1S/H'', ''InChI=1S/HO/h1H''] = [0, 1]"
  by (simp_all add: lex_argsort_def stable_argsort_def)

lemma toy_sides:
  "priv_sort_together lex_argsort [''InChI=1S/O'', ''InChI=1S/H2/h1H''] [0, 0] [3, 1]
     = Inr ([''InChI=1S/H2/h1H'', ''InChI=1S/O''], [0, 0], [1, 3])"
  "priv_sort_together lex_argsort [''InChI=1S/HO/h1H'', ''InChI=1S/H''] [0, 0] [2, 2]
     = Inr ([''InChI=1S/H'', ''InChI=1S/HO/h1H''], [0, 0], [2, 2])"
  "resorting_keeps_identifiers lex_argsort [''InChI=1S/O'', ''InChI=1S/H2/h1H'']"
  "resorting_keeps_identifiers lex_argsort [''InChI=1S/HO/h1H'', ''InChI=1S/H'']"
  by (simp_all add: priv_sort_together_def resorting_keeps_identifiers_def lex_argsort_examples)

lemma toy_reversed:
  "reaction_is_reversed lex_argsort
     [[''InChI=1S/O'', ''InChI=1S/H2/h1H''], [''InChI=1S/HO/h1H'', ''InChI=1S/H'']]
     [[0, 0], [0, 0]] [[3, 1], [2, 2]] = Inr True"
  "reaction_is_reversed lex_argsort
     [[''InChI=1S/HO/h1H'', ''InChI=1S/H''], [''InChI=1S/O'', ''InChI=1S/H2/h1H'']]
     [[0, 0], [0, 0]] [[2, 2], [3, 1]] = Inr False"
  by (simp_all add: reaction_is_reversed_def toy_sides priv_sortable_representation_def
      lex_argsort_examples)

lemma toy_leaf:
  "reaction_leaf (toy_chem True) True
     [[''InChI=1S/H'', ''InChI=1S/HO/h1H''], [''InChI=1S/H2/h1H'', ''InChI=1S/O'']]
     [[0, 0], [0, 0]] [[2, 2], [1, 3]] 3
   = Inr ''H.HO/KEY1/0_0/2_2/KEY2-N/H2.O/KEY1/0_0/1_3/KEY2-N/3''"
  by code_simp

theorem reaction_is_reversed_agrees_with_sort_together_witness:
  "reaction_is_reversed lex_argsort
     [[''InChI=1S/O'', ''InChI=1S/H2/h1H''], [''InChI=1S/HO/h1H'', ''InChI=1S/H'']]
     [[0, 0], [0, 0]] [[3, 1], [2, 2]] = Inr True
   \<and> sort_together lex_argsort
     [[''InChI=1S/O'', ''InChI=1S/H2/h1H''], [''InChI=1S/HO/h1H'', ''InChI=1S/H'']]
     [[0, 0], [0, 0]] [[3, 1], [2, 2]]
     = Inr ([[''InChI=1S/H'', ''InChI=1S/HO/h1H''], [''InChI=1S/H2/h1H'', ''InChI=1S/O'']],
            [[0, 0], [0, 0]], [[2, 2], [1, 3]])
   \<and> reaction_is_reversed lex_argsort
     [[''InChI=1S/HO/h1H'', ''InChI=1S/H''], [''InChI=1S/O'', ''InChI=1S/H2/h1H'']]
     [[0, 0], [0, 0]] [[2, 2], [3, 1]] = Inr False
   \<and> sort_together lex_argsort
     [[''InChI=1S/HO/h1H'', ''InChI=1S/H''], [''InChI=1S/O'', ''InChI=1S/H2/h1H'']]
     [[0, 0], [0, 0]] [[2, 2], [3, 1]]
     = Inr ([[''InChI=1S/H'', ''InChI=1S/HO/h1H''], [''InChI=1S/H2/h1H'', ''InChI=1S/O'']],
            [[0, 0], [0, 0]], [[2, 2], [1, 3]])"
  using toy_reversed toy_sides(1,2)
    reaction_is_reversed_agrees_with_sort_together [of lex_argsort
      "[[''InChI=1S/O'', ''InChI=1S/H2/h1H''], [''InChI=1S/HO/h1H'', ''InChI=1S/H'']]"
      "[[0, 0], [0, 0]]" "[[3, 1], [2, 2]]" True]
    reaction_is_reversed_agrees_with_sort_together [of lex_argsort
      "[[''InChI=1S/HO/h1H'', ''InChI=1S/H''], [''InChI=1S/O'', ''InChI=1S/H2/h1H'']]"
      "[[0, 0], [0, 0]]" "[[2, 2], [3, 1]]" False]
  by simp

theorem reversed_reaction_same_leaf_witness:
  "resorting_keeps_identifiers (chi_argsort (toy_chem True)) [''InChI=1S/O'', ''InChI=1S/H2/h1H'']
   \<and> resorting_keeps_identifiers (chi_argsort (toy_chem True))
        [''InChI=1S/HO/h1H'', ''InChI=1S/H'']
   \<and> sort_together (chi_argsort (toy_chem True))
        [[''InChI=1S/HO/h1H'', ''InChI=1S/H''], [''InChI=1S/O'', ''InChI=1S/H2/h1H'']]
        [[0, 0], [0, 0]] [[2, 2], [3, 1]]
      = Inr ([[''InChI=1S/H'', ''InChI=1S/HO/h1H''], [''InChI=1S/H2/h1H'', ''InChI=1S/O'']],
             [[0, 0], [0, 0]], [[2, 2], [1, 3]])
   \<and> sort_together (chi_argsort (toy_chem True))
        [[''InChI=1S/O'', ''InChI=1S/H2/h1H''], [''InChI=1S/HO/h1H'', ''InChI=1S/H'']]
        [[0, 0], [0, 0]] [[3, 1], [2, 2]]
      = Inr ([[''InChI=1S/H'', ''InChI=1S/HO/h1H''], [''InChI=1S/H2/h1H'', ''InChI=1S/O'']],
             [[0, 0], [0, 0]], [[2, 2], [1, 3]])
   \<and> reaction_leaf (toy_chem True) True
        [[''InChI=1S/H'', ''InChI=1S/HO/h1H''], [''InChI=1S/H2/h1H'', ''InChI=1S/O'']]
        [[0, 0], [0, 0]] [[2, 2], [1, 3]] 3
      = Inr ''H.HO/KEY1/0_0/2_2/KEY2-N/H2.O/KEY1/0_0/1_3/KEY2-N/3''"
proof -
  have a: "chi_argsort (toy_chem True) = lex_argsort"
    by (simp add: toy_chem_def)
  have v: "sort_together lex_argsort
     [[''InChI=1S/O'', ''InChI=1S/H2/h1H''], [''InChI=1S/HO/h1H'', ''InChI=1S/H'']]
     [[0, 0], [0, 0]] [[3, 1], [2, 2]]
     = Inr ([[''InChI=1S/H'', ''InChI=1S/HO/h1H''], [''InChI=1S/H2/h1H'', ''InChI=1S/O'']],
            [[0, 0], [0, 0]], [[2, 2], [1, 3]])"
    by (simp add: sort_together_def toy_sides toy_reversed)
  have k: "resorting_keeps_identifiers (chi_argsort (toy_chem True))
      [''InChI=1S/O'', ''InChI=1S/H2/h1H'']"
    "resorting_keeps_identifiers (chi_argsort (toy_chem True))
      [''InChI=1S/HO/h1H'', ''InChI=1S/H'']"
    by (simp_all add: a toy_sides)
  from k v toy_leaf reversed_reaction_same_leaf [OF k,
      of "[0, 0]" "[0, 0]" "[2, 2]" "[3, 1]" True 3]
  show ?thesis
    by (simp add: a)
qed


section \<open>Which checks of a species leaf depend on safe mode\<close>

lemma species_leaf_cases:
  "species_leaf L safemode ich chg mul =
     (case as_integral chg of
        None \<Rightarrow> Inl AssertionError
      | Some c \<Rightarrow>
          (case as_integral mul of
             None \<Rightarrow> Inl AssertionError
           | Some m \<Rightarrow>
               if (safemode \<longrightarrow> chi_is_standard_form L ich \<and> chi_is_complete L ich)
                  \<and> is_valid_inchi_multiplicity L ich m c
               then Inr (os_path_join (chi_formula_layer L ich)
                           [key_first_hash L (chi_inchi_key L ich), str_integral chg,
                            str_integral mul,
                            key_second_hash_with_extension L (chi_inchi_key L ich)])
               else Inl AssertionError))"
  by (simp add: species_leaf_def Let_def split: option.splits)

text \<open>
  C5. In \<^verbatim>\<open>species_leaf\<close> the standard-form and completeness checks of the identifier and
  the validity check of the charge and multiplicity are made only when the safe-mode flag
  is on. With the flag off only the integer checks are made: \<^verbatim>\<open>species_leaf\<close> returns
  the five-part path for every integer charge and multiplicity, valid for the identifier
  or not, and fails with an assertion error exactly when one of them is not an integer.
  In the source the call of the validity check stands outside the safe-mode block of
  \<^verbatim>\<open>species_leaf\<close>; that the check passes when the flag is off is what the specification
  says of it, and is the hypothesis.
\<close>

theorem species_leaf_safe_mode_gates_checks:
  assumes "is_valid_inchi_multiplicity L = spec_is_valid_inchi_multiplicity electrons safemode"
  shows "(\<not> safemode \<and> as_integral chg = Some c \<and> as_integral mul = Some m \<longrightarrow>
            species_leaf L safemode ich chg mul =
              Inr (os_path_join (chi_formula_layer L ich)
                     [key_first_hash L (chi_inchi_key L ich), str_integral chg, str_integral mul,
                      key_second_hash_with_extension L (chi_inchi_key L ich)]))
       \<and> (as_integral chg = None \<or> as_integral mul = None \<longrightarrow>
            species_leaf L safemode ich chg mul = Inl AssertionError)
       \<and> (safemode \<and> as_integral chg = Some c \<and> as_integral mul = Some m \<longrightarrow>
            species_leaf L safemode ich chg mul =
              (if chi_is_standard_form L ich \<and> chi_is_complete L ich
                  \<and> parity_rule electrons ich m c
               then Inr (os_path_join (chi_formula_layer L ich)
                           [key_first_hash L (chi_inchi_key L ich), str_integral chg,
                            str_integral mul,
                            key_second_hash_with_extension L (chi_inchi_key L ich)])
               else Inl AssertionError))"
  using assms
  by (auto simp: species_leaf_cases spec_is_valid_inchi_multiplicity_def split: option.splits)

theorem species_leaf_safe_mode_gates_checks_witness:
  "is_valid_inchi_multiplicity (toy_chem False)
     = spec_is_valid_inchi_multiplicity toy_electrons False
   \<and> is_valid_inchi_multiplicity (toy_chem True)
     = spec_is_valid_inchi_multiplicity toy_electrons True
   \<and> \<not> parity_rule toy_electrons ''InChI=1S/H'' 1 0
   \<and> species_leaf (toy_chem False) False ''InChI=1S/H'' (PyInt 0) (PyInt 1)
       = Inr ''H/KEY1/0/1/KEY2-N''
   \<and> species_leaf (toy_chem True) True ''InChI=1S/H'' (PyInt 0) (PyInt 1) = Inl AssertionError
   \<and> species_leaf (toy_chem True) True ''InChI=1S/H'' (PyInt 0) (PyInt 2)
       = Inr ''H/KEY1/0/2/KEY2-N''
   \<and> species_leaf (toy_chem False) False ''H'' (PyInt 0) (PyInt 2) = Inr ''KEY1/0/2/KEY2-N''
   \<and> species_leaf (toy_chem True) True ''H'' (PyInt 0) (PyInt 2) = Inl AssertionError
   \<and> species_leaf (toy_chem False) False ''InChI=1S/H'' (PyStr ''0'') (PyInt 2)
       = Inl AssertionError"
proof -
  have v: "is_valid_inchi_multiplicity (toy_chem False)
      = spec_is_valid_inchi_multiplicity toy_electrons False"
    "is_valid_inchi_multiplicity (toy_chem True)
      = spec_is_valid_inchi_multiplicity toy_electrons True"
    by (simp_all add: toy_chem_def)
  have d: "dec_nat 0 = ''0''" "dec_nat (Suc 0) = ''1''" "dec_nat 2 = ''2''"
    by (simp_all add: dec_nat.simps digit_char_simps)
  have t: "chi_is_standard_form (toy_chem True) ''InChI=1S/H''"
    "chi_is_complete (toy_chem True) ''InChI=1S/H''"
    "\<not> chi_is_standard_form (toy_chem True) ''H''"
    "chi_formula_layer (toy_chem b) ''InChI=1S/H'' = ''H''"
    "chi_formula_layer (toy_chem b) ''H'' = []"
    "key_first_hash (toy_chem b) k = ''KEY1''"
    "key_second_hash_with_extension (toy_chem b) k = ''KEY2-N''"
    "\<not> parity_rule toy_electrons ''InChI=1S/H'' 1 0"
    "parity_rule toy_electrons ''InChI=1S/H'' 2 0"
    for b k
    by (simp_all add: toy_chem_def toy_formula_layer_def parity_rule_def toy_electrons_def)
  have p: "os_path_join ''H'' [''KEY1'', ''0'', ''1'', ''KEY2-N''] = ''H/KEY1/0/1/KEY2-N''"
    "os_path_join ''H'' [''KEY1'', ''0'', ''2'', ''KEY2-N''] = ''H/KEY1/0/2/KEY2-N''"
    "os_path_join [] [''KEY1'', ''0'', ''2'', ''KEY2-N''] = ''KEY1/0/2/KEY2-N''"
    by (simp_all add: os_path_join_def path_join2_def)
  show ?thesis
    using v
      species_leaf_safe_mode_gates_checks [OF v(1), of "PyInt 0" 0 "PyInt 1" 1 "''InChI=1S/H''"]
      species_leaf_safe_mode_gates_checks [OF v(2), of "PyInt 0" 0 "PyInt 1" 1 "''InChI=1S/H''"]
      species_leaf_safe_mode_gates_checks [OF v(2), of "PyInt 0" 0 "PyInt 2" 2 "''InChI=1S/H''"]
      species_leaf_safe_mode_gates_checks [OF v(1), of "PyInt 0" 0 "PyInt 2" 2 "''H''"]
      species_leaf_safe_mode_gates_checks [OF v(2), of "PyInt 0" 0 "PyInt 2" 2 "''H''"]
      species_leaf_safe_mode_gates_checks [OF v(1), of "PyStr ''0''" 0 "PyInt 2" 2 "''InChI=1S/H''"]
    by (simp add: t p d str_int_def)
qed

end
